theory Spec2Isabelle
  imports Main "HOL-Library.Monad_Syntax"
begin

section \<open>Strings of the host language\<close>

text \<open>
  The checker \<^verbatim>\<open>checkSyntax\<close> of \<^verbatim>\<open>src/app/utils/syntaxChecker.ts\<close> works on
  JavaScript strings, which are sequences of UTF-16 code units. A string is modelled as
  the list of its code units, so that \<^verbatim>\<open>length\<close> counts what \<^verbatim>\<open>.length\<close> counts and
  the assignment glyph (U+2190) is one element. Literals of the source are written
  \<open>js ''...''\<close>.

  Two library functions are modelled on a restricted domain, and the restriction is
  part of the model:
  \<^item> \<^verbatim>\<open>toUpperCase\<close> and \<^verbatim>\<open>toLowerCase\<close> map the ASCII letters and leave every other
    code unit unchanged (the host maps some non-ASCII letters as well);
  \<^item> \<^verbatim>\<open>parseInt\<close> of a digit string is its exact value and a number is printed in
    decimal (the host rounds values above \<open>2^53\<close> to a double).
\<close>

type_synonym jstring = "nat list"

definition js :: "string \<Rightarrow> jstring" where
  "js s = map of_char s"

definition arrow :: nat where
  "arrow = 8592"

definition isSpace :: "nat \<Rightarrow> bool" where
  \<comment> \<open>\<^verbatim>\<open>\s\<close> and the characters removed by \<^verbatim>\<open>trim\<close>: white space and line terminators\<close>
  "isSpace c = (c \<in> {9, 10, 11, 12, 13, 32, 160, 5760, 8232, 8233, 8239, 8287, 12288, 65279}
                \<or> (8192 \<le> c \<and> c \<le> 8202))"

definition isLineTerminator :: "nat \<Rightarrow> bool" where
  \<comment> \<open>the characters that \<^verbatim>\<open>.\<close> does not match\<close>
  "isLineTerminator c = (c \<in> {10, 13, 8232, 8233})"

definition isDigit :: "nat \<Rightarrow> bool" where
  "isDigit c = (48 \<le> c \<and> c \<le> 57)"

definition isUpper :: "nat \<Rightarrow> bool" where
  "isUpper c = (65 \<le> c \<and> c \<le> 90)"

definition isLower :: "nat \<Rightarrow> bool" where
  "isLower c = (97 \<le> c \<and> c \<le> 122)"

definition isAlpha :: "nat \<Rightarrow> bool" where
  "isAlpha c = (isUpper c \<or> isLower c)"

definition isWord :: "nat \<Rightarrow> bool" where
  \<comment> \<open>\<^verbatim>\<open>\w\<close>, that is \<^verbatim>\<open>[a-zA-Z0-9_]\<close>\<close>
  "isWord c = (isAlpha c \<or> isDigit c \<or> c = 95)"

definition isIdStart :: "nat \<Rightarrow> bool" where
  \<comment> \<open>\<^verbatim>\<open>[a-zA-Z_]\<close>\<close>
  "isIdStart c = (isAlpha c \<or> c = 95)"

definition toUpperCase :: "jstring \<Rightarrow> jstring" where
  "toUpperCase s = map (\<lambda>c. if isLower c then c - 32 else c) s"

definition toLowerCase :: "jstring \<Rightarrow> jstring" where
  "toLowerCase s = map (\<lambda>c. if isUpper c then c + 32 else c) s"

definition trimStart :: "jstring \<Rightarrow> jstring" where
  "trimStart s = dropWhile isSpace s"

definition trim :: "jstring \<Rightarrow> jstring" where
  "trim s = rev (dropWhile isSpace (rev (dropWhile isSpace s)))"

fun startsWith :: "jstring \<Rightarrow> jstring \<Rightarrow> bool" where
  "startsWith s [] = True"
| "startsWith [] (p # ps) = False"
| "startsWith (c # cs) (p # ps) = (c = p \<and> startsWith cs ps)"

fun includesStr :: "jstring \<Rightarrow> jstring \<Rightarrow> bool" where
  "includesStr [] sub = (sub = [])"
| "includesStr (c # cs) sub = (startsWith (c # cs) sub \<or> includesStr cs sub)"

fun indexOf :: "jstring \<Rightarrow> nat \<Rightarrow> nat option" where
  \<comment> \<open>\<^verbatim>\<open>indexOf\<close> of one character; \<open>None\<close> is the host's \<open>-1\<close>\<close>
  "indexOf [] ch = None"
| "indexOf (c # cs) ch = (if c = ch then Some 0 else map_option Suc (indexOf cs ch))"

fun splitOnAux :: "nat \<Rightarrow> jstring \<Rightarrow> jstring \<Rightarrow> jstring list" where
  "splitOnAux ch cur [] = [cur]"
| "splitOnAux ch cur (c # cs) =
     (if c = ch then cur # splitOnAux ch [] cs else splitOnAux ch (cur @ [c]) cs)"

definition splitOn :: "nat \<Rightarrow> jstring \<Rightarrow> jstring list" where
  \<comment> \<open>\<^verbatim>\<open>s.split(ch)\<close> for a one-character separator\<close>
  "splitOn ch s = splitOnAux ch [] s"

fun splitSpacesAux :: "jstring \<Rightarrow> bool \<Rightarrow> jstring \<Rightarrow> jstring list" where
  "splitSpacesAux cur inSep [] = [cur]"
| "splitSpacesAux cur inSep (c # cs) =
     (if isSpace c then (if inSep then splitSpacesAux [] True cs
                         else cur # splitSpacesAux [] True cs)
      else splitSpacesAux (cur @ [c]) False cs)"

definition splitSpaces :: "jstring \<Rightarrow> jstring list" where
  \<comment> \<open>\<^verbatim>\<open>s.split(/\s+/)\<close>: a separator at either end leaves an empty string there\<close>
  "splitSpaces s = splitSpacesAux [] False s"

fun wordRunsAux :: "jstring \<Rightarrow> jstring \<Rightarrow> jstring list" where
  "wordRunsAux cur [] = (if cur = [] then [] else [cur])"
| "wordRunsAux cur (c # cs) =
     (if isWord c then wordRunsAux (cur @ [c]) cs
      else if cur = [] then wordRunsAux [] cs else cur # wordRunsAux [] cs)"

definition wordRuns :: "jstring \<Rightarrow> jstring list" where
  \<comment> \<open>the maximal runs of \<^verbatim>\<open>\w\<close> characters, left to right: the candidates of a
      pattern \<^verbatim>\<open>\b...\b\<close> whose body matches word characters only\<close>
  "wordRuns s = wordRunsAux [] s"

fun parseInt :: "jstring \<Rightarrow> nat" where
  \<comment> \<open>only ever applied to a match of \<^verbatim>\<open>\d+\<close>\<close>
  "parseInt ds = foldl (\<lambda>a c. 10 * a + (c - 48)) 0 ds"

fun showNat :: "nat \<Rightarrow> jstring" where
  "showNat n = (if n < 10 then [48 + n] else showNat (n div 10) @ [48 + n mod 10])"

declare showNat.simps [simp del]

section \<open>The regular expressions of the checker\<close>

text \<open>
  Each pattern of the source is translated into a function that matches it at the start
  of a string and returns the captured groups (with the rest of the string, or the
  length of the match, where the caller continues from there). Every pattern used here
  is deterministic: a greedy repetition is always followed by a character outside the
  repeated class, so that backtracking never finds a match the greedy choice misses.
  An unanchored pattern is tried at every position from the left (\<open>searchFirst\<close>); a
  pattern with the flag \<^verbatim>\<open>g\<close> collects the successive matches (\<open>matchAll\<close>).
\<close>

definition lit :: "jstring \<Rightarrow> jstring \<Rightarrow> jstring option" where
  "lit p s = (if startsWith s p then Some (drop (length p) s) else None)"

definition litI :: "jstring \<Rightarrow> jstring \<Rightarrow> jstring option" where
  \<comment> \<open>a literal under the flag \<^verbatim>\<open>i\<close>; \<open>p\<close> is given in upper case\<close>
  "litI p s = (if length p \<le> length s \<and> toUpperCase (take (length p) s) = p
               then Some (drop (length p) s) else None)"

definition chr :: "nat \<Rightarrow> jstring \<Rightarrow> jstring option" where
  "chr ch s = (case s of [] \<Rightarrow> None | c # cs \<Rightarrow> if c = ch then Some cs else None)"

definition spaces0 :: "jstring \<Rightarrow> jstring" where
  \<comment> \<open>\<^verbatim>\<open>\s*\<close>\<close>
  "spaces0 s = dropWhile isSpace s"

definition run1 :: "(nat \<Rightarrow> bool) \<Rightarrow> jstring \<Rightarrow> (jstring \<times> jstring) option" where
  \<comment> \<open>one or more characters of a class, greedy\<close>
  "run1 P s = (case s of [] \<Rightarrow> None
               | c # cs \<Rightarrow> if P c then Some (c # takeWhile P cs, dropWhile P cs) else None)"

definition spaces1 :: "jstring \<Rightarrow> jstring option" where
  \<comment> \<open>\<^verbatim>\<open>\s+\<close>\<close>
  "spaces1 s = map_option snd (run1 isSpace s)"

definition ident :: "jstring \<Rightarrow> (jstring \<times> jstring) option" where
  \<comment> \<open>\<^verbatim>\<open>([a-zA-Z_][a-zA-Z0-9_]*)\<close>\<close>
  "ident s = (case s of [] \<Rightarrow> None
              | c # cs \<Rightarrow> if isIdStart c then Some (c # takeWhile isWord cs, dropWhile isWord cs)
                          else None)"

fun searchFirst :: "(jstring \<Rightarrow> 'a option) \<Rightarrow> jstring \<Rightarrow> 'a option" where
  "searchFirst m [] = m []"
| "searchFirst m (c # cs) =
     (case m (c # cs) of Some r \<Rightarrow> Some r | None \<Rightarrow> searchFirst m cs)"

fun matchAllAux :: "(jstring \<Rightarrow> ('a \<times> nat) option) \<Rightarrow> nat \<Rightarrow> jstring \<Rightarrow> 'a list" where
  "matchAllAux m k [] = []"
| "matchAllAux m (Suc k) (c # cs) = matchAllAux m k cs"
| "matchAllAux m 0 (c # cs) =
     (case m (c # cs) of Some (r, n) \<Rightarrow> r # matchAllAux m (n - 1) cs
      | None \<Rightarrow> matchAllAux m 0 cs)"

definition matchAll :: "(jstring \<Rightarrow> ('a \<times> nat) option) \<Rightarrow> jstring \<Rightarrow> 'a list" where
  \<comment> \<open>\<open>m\<close> returns its result and the (positive) length of the match; the search goes
      on after the match\<close>
  "matchAll m s = matchAllAux m 0 s"

definition isIdentifier :: "jstring \<Rightarrow> bool" where
  \<comment> \<open>\<^verbatim>\<open>/^[a-zA-Z_][a-zA-Z0-9_]*$/\<close>\<close>
  "isIdentifier s = (case s of [] \<Rightarrow> False | c # cs \<Rightarrow> isIdStart c \<and> list_all isWord cs)"

definition isLetterIdentifier :: "jstring \<Rightarrow> bool" where
  \<comment> \<open>\<^verbatim>\<open>/^[a-zA-Z][a-zA-Z0-9_]*$/\<close>\<close>
  "isLetterIdentifier s = (case s of [] \<Rightarrow> False | c # cs \<Rightarrow> isAlpha c \<and> list_all isWord cs)"

definition startsWithDigit :: "jstring \<Rightarrow> bool" where
  \<comment> \<open>\<^verbatim>\<open>/^\d/\<close>\<close>
  "startsWithDigit s = (case s of [] \<Rightarrow> False | c # cs \<Rightarrow> isDigit c)"

definition isUpperWord :: "jstring \<Rightarrow> bool" where
  \<comment> \<open>\<^verbatim>\<open>/^[A-Z]+$/\<close>\<close>
  "isUpperWord s = (s \<noteq> [] \<and> list_all isUpper s)"

definition isUpperIdentifier :: "jstring \<Rightarrow> bool" where
  \<comment> \<open>\<^verbatim>\<open>/^[A-Z][A-Z0-9_]*$/\<close>\<close>
  "isUpperIdentifier s =
     (case s of [] \<Rightarrow> False
      | c # cs \<Rightarrow> isUpper c \<and> list_all (\<lambda>d. isUpper d \<or> isDigit d \<or> d = 95) cs)"

definition identifierMatches :: "jstring \<Rightarrow> jstring list" where
  \<comment> \<open>\<^verbatim>\<open>/\b[a-zA-Z][a-zA-Z0-9_]*\b/g\<close>: the word runs that start with a letter\<close>
  "identifierMatches s = filter (\<lambda>w. case w of [] \<Rightarrow> False | c # cs \<Rightarrow> isAlpha c) (wordRuns s)"

definition variableMatches :: "jstring \<Rightarrow> jstring list" where
  \<comment> \<open>\<^verbatim>\<open>/\b([a-zA-Z_][a-zA-Z0-9_]*)\b/g\<close>: the word runs that do not start with a digit\<close>
  "variableMatches s = filter (\<lambda>w. case w of [] \<Rightarrow> False | c # cs \<Rightarrow> isIdStart c) (wordRuns s)"

definition isInConditional :: "jstring \<Rightarrow> bool" where
  \<comment> \<open>\<^verbatim>\<open>/\b(IF|WHILE|UNTIL)\b/\<close>\<close>
  "isInConditional s = (\<exists>w \<in> set (wordRuns s). w \<in> {js ''IF'', js ''WHILE'', js ''UNTIL''})"

definition assignPattern :: "nat \<Rightarrow> jstring \<Rightarrow> bool" where
  \<comment> \<open>\<^verbatim>\<open>/^[a-zA-Z_][a-zA-Z0-9_]*\s*X/\<close> for the character \<open>X\<close>\<close>
  "assignPattern x s = (case ident s of None \<Rightarrow> False | Some (n, r) \<Rightarrow> chr x (spaces0 r) \<noteq> None)"

fun removeComment :: "jstring \<Rightarrow> jstring" where
  \<comment> \<open>\<^verbatim>\<open>replace(/\/\/.*$/, '')\<close>: the first \<^verbatim>\<open>//\<close> with no line terminator behind it\<close>
  "removeComment [] = []"
| "removeComment (c # cs) =
     (if startsWith (c # cs) (js ''//'') \<and> \<not> list_ex isLineTerminator (drop 1 cs) then []
      else c # removeComment cs)"

fun removeQuotedAux :: "nat \<Rightarrow> jstring option \<Rightarrow> jstring \<Rightarrow> jstring" where
  "removeQuotedAux q None [] = []"
| "removeQuotedAux q (Some b) [] = b"
| "removeQuotedAux q None (c # cs) =
     (if c = q then removeQuotedAux q (Some [c]) cs else c # removeQuotedAux q None cs)"
| "removeQuotedAux q (Some b) (c # cs) =
     (if c = q then removeQuotedAux q None cs else removeQuotedAux q (Some (b @ [c])) cs)"

definition removeQuoted :: "nat \<Rightarrow> jstring \<Rightarrow> jstring" where
  \<comment> \<open>\<^verbatim>\<open>replace(/q[^q]*q/g, '')\<close>: \<open>Some b\<close> holds the text since an opening quote, which
      stays when no closing quote follows\<close>
  "removeQuoted q s = removeQuotedAux q None s"

fun quotedContentsAux :: "nat \<Rightarrow> jstring option \<Rightarrow> jstring \<Rightarrow> jstring list" where
  "quotedContentsAux q b [] = []"
| "quotedContentsAux q None (c # cs) =
     (if c = q then quotedContentsAux q (Some []) cs else quotedContentsAux q None cs)"
| "quotedContentsAux q (Some b) (c # cs) =
     (if c = q then b # quotedContentsAux q None cs else quotedContentsAux q (Some (b @ [c])) cs)"

definition quotedContents :: "nat \<Rightarrow> jstring \<Rightarrow> jstring list" where
  \<comment> \<open>the matches of \<^verbatim>\<open>/q[^q]*q/g\<close>, each without its two quotes (\<^verbatim>\<open>slice(1, -1)\<close>)\<close>
  "quotedContents q s = quotedContentsAux q None s"

definition arrayDeclAt :: "jstring \<Rightarrow> (jstring \<times> jstring \<times> jstring) option" where
  \<comment> \<open>\<^verbatim>\<open>/DECLARE\s+([a-zA-Z_][a-zA-Z0-9_]*)\s*:\s*ARRAY\[(\d+):(\d+)\]/i\<close>\<close>
  "arrayDeclAt s = do {
     s1 \<leftarrow> litI (js ''DECLARE'') s;
     s2 \<leftarrow> spaces1 s1;
     (name, s3) \<leftarrow> ident s2;
     s4 \<leftarrow> chr 58 (spaces0 s3);
     s5 \<leftarrow> litI (js ''ARRAY['') (spaces0 s4);
     (lo, s6) \<leftarrow> run1 isDigit s5;
     s7 \<leftarrow> chr 58 s6;
     (hi, s8) \<leftarrow> run1 isDigit s7;
     s9 \<leftarrow> chr 93 s8;
     Some (name, lo, hi) }"

definition constantAt :: "jstring \<Rightarrow> jstring option" where
  \<comment> \<open>\<^verbatim>\<open>/CONSTANT\s+([a-zA-Z_][a-zA-Z0-9_]*)\s*=/i\<close>\<close>
  "constantAt s = do {
     s1 \<leftarrow> litI (js ''CONSTANT'') s;
     s2 \<leftarrow> spaces1 s1;
     (name, s3) \<leftarrow> ident s2;
     s4 \<leftarrow> chr 61 (spaces0 s3);
     Some name }"

definition declareCharAt :: "jstring \<Rightarrow> unit option" where
  \<comment> \<open>\<^verbatim>\<open>/DECLARE\s+\w+\s*:\s*CHAR/\<close>\<close>
  "declareCharAt s = do {
     s1 \<leftarrow> lit (js ''DECLARE'') s;
     s2 \<leftarrow> spaces1 s1;
     (w, s3) \<leftarrow> run1 isWord s2;
     s4 \<leftarrow> chr 58 (spaces0 s3);
     s5 \<leftarrow> lit (js ''CHAR'') (spaces0 s4);
     Some () }"

definition assignStringAt :: "jstring \<Rightarrow> jstring option" where
  \<comment> \<open>\<^verbatim>\<open>/([a-zA-Z_][a-zA-Z0-9_]*)\s*ARROW\s*"[^"]*"/\<close>\<close>
  "assignStringAt s = do {
     (name, s1) \<leftarrow> ident s;
     s2 \<leftarrow> chr arrow (spaces0 s1);
     s3 \<leftarrow> chr 34 (spaces0 s2);
     if 34 \<in> set s3 then Some name else None }"

definition arrayAccessAt :: "jstring \<Rightarrow> ((jstring \<times> jstring) \<times> jstring) option" where
  \<comment> \<open>\<^verbatim>\<open>/([a-zA-Z_][a-zA-Z0-9_]*)\[(\d+)\]/\<close>, with the rest of the string\<close>
  "arrayAccessAt s = do {
     (name, s1) \<leftarrow> ident s;
     s2 \<leftarrow> chr 91 s1;
     (ds, s3) \<leftarrow> run1 isDigit s2;
     s4 \<leftarrow> chr 93 s3;
     Some ((name, ds), s4) }"

definition arrayAccessMatches :: "jstring \<Rightarrow> jstring list" where
  \<comment> \<open>\<^verbatim>\<open>trimmedLine.match(/.../g)\<close>: the matched substrings\<close>
  "arrayAccessMatches s =
     matchAll (\<lambda>t. map_option (\<lambda>(r, rest). (take (length t - length rest) t,
                                               length t - length rest)) (arrayAccessAt t)) s"

definition arrayAccessMatch :: "jstring \<Rightarrow> (jstring \<times> jstring) option" where
  \<comment> \<open>\<^verbatim>\<open>access.match(/.../)\<close>: the two groups of the first match\<close>
  "arrayAccessMatch s = searchFirst (\<lambda>t. map_option fst (arrayAccessAt t)) s"

definition assignmentTarget :: "jstring \<Rightarrow> jstring option" where
  \<comment> \<open>\<^verbatim>\<open>/^\s*([a-zA-Z_][a-zA-Z0-9_]*)\s*ARROW/\<close>\<close>
  "assignmentTarget s = do {
     (name, s1) \<leftarrow> ident (spaces0 s);
     s2 \<leftarrow> chr arrow (spaces0 s1);
     Some name }"

definition keywordNameAt :: "jstring \<Rightarrow> jstring \<Rightarrow> jstring option" where
  \<comment> \<open>\<^verbatim>\<open>/KW\s+([a-zA-Z_][a-zA-Z0-9_]*)/i\<close> for \<open>KW\<close> one of CALL and FUNCTION\<close>
  "keywordNameAt kw s = do {
     s1 \<leftarrow> litI kw s;
     s2 \<leftarrow> spaces1 s1;
     (name, s3) \<leftarrow> ident s2;
     Some name }"

definition openfileAt :: "jstring \<Rightarrow> jstring option" where
  \<comment> \<open>\<^verbatim>\<open>/OPENFILE\s+\S+\s+FOR\s+(\w+)/i\<close>\<close>
  "openfileAt s = do {
     s1 \<leftarrow> litI (js ''OPENFILE'') s;
     s2 \<leftarrow> spaces1 s1;
     (f, s3) \<leftarrow> run1 (\<lambda>c. \<not> isSpace c) s2;
     s4 \<leftarrow> spaces1 s3;
     s5 \<leftarrow> litI (js ''FOR'') s4;
     s6 \<leftarrow> spaces1 s5;
     (mode, s7) \<leftarrow> run1 isWord s6;
     Some mode }"

definition paramsAt :: "jstring \<Rightarrow> jstring \<Rightarrow> jstring option" where
  \<comment> \<open>\<^verbatim>\<open>/KW\s+\w+\s*\((.*?)\)/i\<close> for \<open>KW\<close> one of FUNCTION and PROCEDURE: the group ends
      at the first closing parenthesis and holds no line terminator\<close>
  "paramsAt kw s = do {
     s1 \<leftarrow> litI kw s;
     s2 \<leftarrow> spaces1 s1;
     (w, s3) \<leftarrow> run1 isWord s2;
     s4 \<leftarrow> chr 40 (spaces0 s3);
     if dropWhile (\<lambda>c. c \<noteq> 41) s4 \<noteq> [] \<and> \<not> list_ex isLineTerminator (takeWhile (\<lambda>c. c \<noteq> 41) s4)
     then Some (takeWhile (\<lambda>c. c \<noteq> 41) s4) else None }"

definition lengthCallAt :: "jstring \<Rightarrow> (jstring \<times> jstring) option" where
  \<comment> \<open>\<^verbatim>\<open>/LENGTH\s*\(\s*([a-zA-Z_][a-zA-Z0-9_]*)\s*\)/i\<close>, with the rest of the string\<close>
  "lengthCallAt s = do {
     s1 \<leftarrow> litI (js ''LENGTH'') s;
     s2 \<leftarrow> chr 40 (spaces0 s1);
     (name, s3) \<leftarrow> ident (spaces0 s2);
     s4 \<leftarrow> chr 41 (spaces0 s3);
     Some (name, s4) }"

definition lengthMatches :: "jstring \<Rightarrow> jstring list" where
  "lengthMatches s =
     matchAll (\<lambda>t. map_option (\<lambda>(r, rest). (take (length t - length rest) t,
                                               length t - length rest)) (lengthCallAt t)) s"

definition lengthMatch :: "jstring \<Rightarrow> jstring option" where
  "lengthMatch s = searchFirst (\<lambda>t. map_option fst (lengthCallAt t)) s"

section \<open>Diagnostics and the state of a scan\<close>

datatype severity = Error | Warning

record SyntaxError =
  line :: nat
  message :: jstring
  type :: severity

record SyntaxCheckResult =
  isValid :: bool
  errors :: "SyntaxError list"

definition diag :: "nat \<Rightarrow> jstring \<Rightarrow> severity \<Rightarrow> SyntaxError" where
  "diag l m t = \<lparr>line = l, message = m, type = t\<rparr>"

text \<open>
  The local variables of \<^verbatim>\<open>checkSyntax\<close> that the line pass updates. \<open>errs\<close> is the
  array \<^verbatim>\<open>errors\<close>; \<open>blockStack\<close> is kept in array order, so that \<^verbatim>\<open>push\<close> appends
  and \<^verbatim>\<open>pop\<close> takes the last element. An entry of \<open>blockStack\<close> is (keyword, line),
  one of \<open>arrayDeclarations\<close> is (start, end, line), one of \<open>variableTypes\<close> is
  (type, line).
\<close>

record scan =
  errs :: "SyntaxError list"
  blockStack :: "(jstring \<times> nat) list"
  arrayDeclarations :: "jstring \<rightharpoonup> nat \<times> nat \<times> nat"
  declaredVariables :: "jstring set"
  variableTypes :: "jstring \<rightharpoonup> jstring \<times> nat"
  declaredFunctions :: "jstring set"

definition initScan :: scan where
  "initScan = \<lparr>errs = [], blockStack = [], arrayDeclarations = Map.empty,
               declaredVariables = {}, variableTypes = Map.empty, declaredFunctions = {}\<rparr>"

definition push :: "SyntaxError list \<Rightarrow> scan \<Rightarrow> scan" where
  "push ds st = st\<lparr>errs := errs st @ ds\<rparr>"

definition KEYWORDS :: "jstring list" where
  "KEYWORDS = map js
     [''DECLARE'', ''CONSTANT'', ''TYPE'', ''ENDTYPE'', ''DEFINE'',
      ''INTEGER'', ''REAL'', ''CHAR'', ''STRING'', ''BOOLEAN'', ''DATE'', ''ARRAY'', ''OF'', ''SET'',
      ''IF'', ''THEN'', ''ELSE'', ''ENDIF'', ''ELSEIF'',
      ''CASE'', ''ENDCASE'', ''OTHERWISE'',
      ''FOR'', ''TO'', ''NEXT'', ''STEP'',
      ''WHILE'', ''ENDWHILE'', ''REPEAT'', ''UNTIL'',
      ''BREAK'',
      ''PROCEDURE'', ''ENDPROCEDURE'', ''FUNCTION'', ''ENDFUNCTION'', ''RETURN'', ''RETURNS'',
      ''CALL'', ''BYVAL'', ''BYREF'',
      ''INPUT'', ''OUTPUT'',
      ''OPENFILE'', ''READFILE'', ''WRITEFILE'', ''CLOSEFILE'', ''SEEK'', ''GETRECORD'', ''PUTRECORD'',
      ''AND'', ''OR'', ''NOT'', ''MOD'', ''DIV'',
      ''TRUE'', ''FALSE'',
      ''RIGHT'', ''LEFT'', ''LENGTH'', ''MID'', ''LCASE'', ''UCASE'',
      ''INT'', ''RAND'']"

definition BLOCK_KEYWORDS :: "(jstring \<times> jstring) list" where
  "BLOCK_KEYWORDS = map (\<lambda>(k, v). (js k, js v))
     [(''IF'', ''ENDIF''), (''FOR'', ''NEXT''), (''WHILE'', ''ENDWHILE''), (''REPEAT'', ''UNTIL''),
      (''PROCEDURE'', ''ENDPROCEDURE''), (''FUNCTION'', ''ENDFUNCTION''),
      (''CASE'', ''ENDCASE''), (''TYPE'', ''ENDTYPE'')]"

definition closingKeywords :: "jstring list" where
  \<comment> \<open>\<^verbatim>\<open>Object.values(BLOCK_KEYWORDS)\<close>\<close>
  "closingKeywords = map snd BLOCK_KEYWORDS"

definition closerOf :: "jstring \<Rightarrow> jstring" where
  \<comment> \<open>\<^verbatim>\<open>BLOCK_KEYWORDS[k]\<close> as it prints in a message\<close>
  "closerOf k = (case map_of BLOCK_KEYWORDS k of Some e \<Rightarrow> e | None \<Rightarrow> js ''undefined'')"

definition sq :: jstring where
  \<comment> \<open>the single quote\<close>
  "sq = [39]"

section \<open>The rules of the line pass\<close>

text \<open>
  One function for each check of the loop body, in the order of the source. A check that
  only reports takes the line (and the table it reads) and returns its diagnostics; a
  check that also updates a table or the block stack maps the state to the new state.
\<close>

definition checkIndentation :: "nat \<Rightarrow> jstring \<Rightarrow> SyntaxError list" where
  "checkIndentation lineNumber ln =
     (if (length ln - length (trimStart ln)) mod 3 \<noteq> 0
      then [diag lineNumber (js ''Indentation should be multiples of 3 spaces'') Warning]
      else [])"

definition checkAssignmentOperator :: "nat \<Rightarrow> jstring \<Rightarrow> SyntaxError list" where
  "checkAssignmentOperator lineNumber trimmedLine =
     (if includesStr trimmedLine (js ''='') \<and> \<not> includesStr trimmedLine (js ''<='')
         \<and> \<not> includesStr trimmedLine (js ''>='') \<and> \<not> includesStr trimmedLine (js ''<>'')
         \<and> \<not> startsWith trimmedLine (js ''CONSTANT'')
      then (if \<not> isInConditional trimmedLine \<and> \<not> includesStr trimmedLine [arrow]
            then [diag lineNumber
                    (js ''Use '' @ [arrow] @ js '' for assignment instead of = (Cambridge rule)'')
                    Error]
            else [])
      else [])"

definition checkIdentifiers :: "nat \<Rightarrow> jstring \<Rightarrow> SyntaxError list" where
  "checkIdentifiers lineNumber trimmedLine =
     concat (map (\<lambda>identifier.
       if toUpperCase identifier \<notin> set KEYWORDS
       then (if startsWithDigit identifier
             then [diag lineNumber
                     (js ''Identifier '' @ sq @ identifier @ sq @ js '' cannot start with a number'')
                     Error]
             else [])
          @ (if \<not> isLetterIdentifier identifier
             then [diag lineNumber
                     (js ''Identifier '' @ sq @ identifier @ sq @ js '' contains invalid characters'')
                     Error]
             else [])
       else []) (identifierMatches trimmedLine))"

definition hasValidStructure :: "jstring \<Rightarrow> jstring list \<Rightarrow> bool" where
  "hasValidStructure trimmedLine words =
     (list_ex (\<lambda>word. toUpperCase word \<in> set KEYWORDS) words
      \<or> includesStr trimmedLine [arrow]
      \<or> assignPattern arrow trimmedLine
      \<or> assignPattern 61 trimmedLine
      \<or> includesStr trimmedLine (js '':''))"

definition checkStructure :: "nat \<Rightarrow> jstring \<Rightarrow> jstring list \<Rightarrow> SyntaxError list" where
  "checkStructure lineNumber trimmedLine words =
     (if \<not> hasValidStructure trimmedLine words
      then [diag lineNumber
              (js ''This line does not appear to be valid pseudocode. Use Cambridge keywords and proper syntax.'')
              Error]
      else [])"

definition isCloser :: "jstring \<Rightarrow> bool" where
  "isCloser firstWord =
     (firstWord \<in> set closingKeywords \<or> firstWord = js ''NEXT'' \<or> firstWord = js ''UNTIL'')"

definition unexpectedCloser :: "nat \<Rightarrow> jstring \<Rightarrow> SyntaxError" where
  "unexpectedCloser lineNumber firstWord =
     diag lineNumber (js ''Unexpected '' @ firstWord @ js '' without matching opening'') Error"

definition isMismatch :: "jstring \<Rightarrow> jstring \<Rightarrow> bool" where
  \<comment> \<open>the test on the keyword of the popped block and the closing keyword found\<close>
  "isMismatch keyword firstWord =
     (Some firstWord \<noteq> map_of BLOCK_KEYWORDS keyword
      \<and> \<not> (keyword = js ''FOR'' \<and> firstWord = js ''NEXT'')
      \<and> \<not> (keyword = js ''REPEAT'' \<and> firstWord = js ''UNTIL''))"

definition expectedCloser :: "nat \<Rightarrow> jstring \<Rightarrow> jstring \<Rightarrow> SyntaxError" where
  "expectedCloser lineNumber keyword firstWord =
     diag lineNumber (js ''Expected '' @ closerOf keyword @ js '' but found '' @ firstWord) Error"

definition closeBlock :: "nat \<Rightarrow> jstring \<Rightarrow> scan \<Rightarrow> scan" where
  \<comment> \<open>the closing keywords: the last block is popped and its closer compared\<close>
  "closeBlock lineNumber firstWord st =
     (if blockStack st = [] then push [unexpectedCloser lineNumber firstWord] st
      else let lastBlock = last (blockStack st);
               st' = st\<lparr>blockStack := butlast (blockStack st)\<rparr>
           in if isMismatch (fst lastBlock) firstWord
              then push [expectedCloser lineNumber (fst lastBlock) firstWord] st'
              else st')"

definition checkFirstWord :: "nat \<Rightarrow> jstring list \<Rightarrow> scan \<Rightarrow> scan" where
  "checkFirstWord lineNumber words st =
     (case words of [] \<Rightarrow> st
      | firstWord # ws \<Rightarrow>
          if isUpperWord firstWord then
            let st1 = (if firstWord \<notin> set KEYWORDS \<and> \<not> isUpperIdentifier firstWord
                       then push [diag lineNumber (js ''Unknown keyword: '' @ firstWord) Error] st
                       else st);
                st2 = (if map_of BLOCK_KEYWORDS firstWord \<noteq> None
                       then st1\<lparr>blockStack := blockStack st1 @ [(firstWord, lineNumber)]\<rparr>
                       else st1)
            in if isCloser firstWord then closeBlock lineNumber firstWord st2 else st2
          else st)"

definition stripLiterals :: "jstring \<Rightarrow> jstring" where
  \<comment> \<open>\<^verbatim>\<open>lineWithoutStrings\<close>: the comment, then the double-quoted, then the single-quoted
      strings are removed\<close>
  "stripLiterals trimmedLine = removeQuoted 39 (removeQuoted 34 (removeComment trimmedLine))"

definition keywordCase :: "nat \<Rightarrow> jstring \<Rightarrow> SyntaxError" where
  "keywordCase lineNumber word =
     diag lineNumber (js ''Keyword '' @ sq @ word @ sq @ js '' should be uppercase: ''
                      @ sq @ toUpperCase word @ sq) Error"

definition checkKeywordCase :: "nat \<Rightarrow> jstring \<Rightarrow> SyntaxError list" where
  "checkKeywordCase lineNumber lineWithoutStrings =
     concat (map (\<lambda>word.
       if toUpperCase word \<in> set KEYWORDS \<and> word \<noteq> toUpperCase word \<and> length word > 0
       then [keywordCase lineNumber word] else []) (splitSpaces lineWithoutStrings))"

definition invalidKeywords :: "jstring list" where
  "invalidKeywords = map js [''CONTINUE'', ''DO'', ''SWITCH'', ''DEFAULT'', ''TRY'', ''CATCH'']"

definition checkInvalidKeywords :: "nat \<Rightarrow> jstring list \<Rightarrow> SyntaxError list" where
  "checkInvalidKeywords lineNumber words =
     concat (map (\<lambda>word.
       if toUpperCase word \<in> set invalidKeywords
       then [diag lineNumber (sq @ word @ sq @ js '' is not a valid Cambridge pseudocode keyword'')
               Error]
       else []) words)"

definition declareVariable :: "nat \<Rightarrow> jstring \<Rightarrow> scan \<Rightarrow> jstring \<Rightarrow> scan" where
  \<comment> \<open>the body of \<^verbatim>\<open>variableNames.forEach\<close> on a DECLARE line\<close>
  "declareVariable lineNumber afterColon st varName =
     (if varName \<noteq> [] \<and> isIdentifier varName then
        if toUpperCase varName \<in> set KEYWORDS
        then push [diag lineNumber
                     (sq @ varName @ sq
                      @ js '' is a reserved keyword and cannot be used as a variable name'')
                     Error] st
        else if toLowerCase varName \<in> declaredVariables st then
          (case variableTypes st (toLowerCase varName) of
             Some (previousType, previousLine) \<Rightarrow>
               if previousType \<noteq> afterColon
               then push [diag lineNumber
                            (js ''Variable '' @ sq @ varName @ sq
                             @ js '' redeclared with different type. Previously declared as ''
                             @ previousType @ js '' on line '' @ showNat previousLine)
                            Error] st
               else push [diag lineNumber
                            (js ''Variable '' @ sq @ varName @ sq @ js '' already declared on line ''
                             @ (if previousLine = 0 then js ''unknown'' else showNat previousLine))
                            Warning] st
           | None \<Rightarrow>
               push [diag lineNumber
                       (js ''Variable '' @ sq @ varName @ sq @ js '' already declared on line unknown'')
                       Warning] st)
        else st\<lparr>declaredVariables := insert (toLowerCase varName) (declaredVariables st),
                variableTypes := (variableTypes st)(toLowerCase varName \<mapsto> (afterColon, lineNumber))\<rparr>
      else st)"

definition registerArray :: "nat \<Rightarrow> jstring \<Rightarrow> scan \<Rightarrow> scan" where
  \<comment> \<open>\<^verbatim>\<open>arrayMatch\<close>: the bounds are stored as they are written, in either order\<close>
  "registerArray lineNumber trimmedLine st =
     (case searchFirst arrayDeclAt trimmedLine of
        None \<Rightarrow> st
      | Some (name, lo, hi) \<Rightarrow>
          st\<lparr>arrayDeclarations :=
               (arrayDeclarations st)(toLowerCase name \<mapsto> (parseInt lo, parseInt hi, lineNumber))\<rparr>)"

definition checkDeclare :: "nat \<Rightarrow> jstring \<Rightarrow> scan \<Rightarrow> scan" where
  "checkDeclare lineNumber trimmedLine st =
     (if startsWith trimmedLine (js ''DECLARE'') then
        if \<not> includesStr trimmedLine (js '':'')
        then push [diag lineNumber
                     (js ''DECLARE statement must specify variable type with colon (:)'') Error] st
        else
          let declarePart = trim (drop 7 trimmedLine);
              st1 = (case indexOf declarePart 58 of
                       None \<Rightarrow> st
                     | Some colonIndex \<Rightarrow>
                         foldl (declareVariable lineNumber (trim (drop (colonIndex + 1) declarePart)))
                           st (map trim (splitOn 44 (trim (take colonIndex declarePart)))))
          in registerArray lineNumber trimmedLine st1
      else st)"

definition checkConstant :: "nat \<Rightarrow> jstring \<Rightarrow> scan \<Rightarrow> scan" where
  "checkConstant lineNumber trimmedLine st =
     (if startsWith trimmedLine (js ''CONSTANT'') then
        let st1 = push ((if \<not> includesStr trimmedLine (js ''='')
                         then [diag lineNumber (js ''CONSTANT must be assigned a value using ='') Error]
                         else [])
                      @ (if includesStr trimmedLine [arrow]
                         then [diag lineNumber
                                 (js ''CONSTANT declarations use = not '' @ [arrow]) Error]
                         else [])) st
        in (case searchFirst constantAt trimmedLine of
              None \<Rightarrow> st1
            | Some constantName \<Rightarrow>
                st1\<lparr>declaredVariables := insert (toLowerCase constantName) (declaredVariables st1),
                    variableTypes := (variableTypes st1)
                       (toLowerCase constantName \<mapsto> (js ''CONSTANT'', lineNumber))\<rparr>)
      else st)"

definition checkArrayFormat :: "nat \<Rightarrow> jstring \<Rightarrow> SyntaxError list" where
  "checkArrayFormat lineNumber trimmedLine =
     (if startsWith trimmedLine (js ''DECLARE'') \<and> includesStr trimmedLine (js ''ARRAY'') then
        (if \<not> includesStr trimmedLine (js ''['') \<or> \<not> includesStr trimmedLine (js '']'')
         then [diag lineNumber
                 (js ''ARRAY declaration must include index range in square brackets [start:end]'')
                 Error]
         else [])
      @ (if \<not> includesStr trimmedLine (js ''OF'')
         then [diag lineNumber (js ''ARRAY declaration must include OF keyword'') Error]
         else [])
      else [])"

definition checkFor :: "nat \<Rightarrow> jstring \<Rightarrow> SyntaxError list" where
  "checkFor lineNumber trimmedLine =
     (if startsWith trimmedLine (js ''FOR'')
         \<and> (\<not> includesStr trimmedLine [arrow] \<or> \<not> includesStr trimmedLine (js ''TO''))
      then [diag lineNumber
              (js ''FOR loop must use format: FOR variable '' @ [arrow] @ js '' start TO end'') Error]
      else [])"

definition checkCaseOf :: "nat \<Rightarrow> jstring \<Rightarrow> SyntaxError list" where
  "checkCaseOf lineNumber trimmedLine =
     (if startsWith trimmedLine (js ''CASE OF'') \<and> \<not> includesStr trimmedLine (js ''OF'')
      then [diag lineNumber (js ''CASE statement must use format: CASE OF variable'') Error]
      else [])"

definition checkWhile :: "nat \<Rightarrow> jstring \<Rightarrow> SyntaxError list" where
  "checkWhile lineNumber trimmedLine =
     (if startsWith trimmedLine (js ''WHILE'')
         \<and> includesStr trimmedLine (js ''('') \<and> includesStr trimmedLine (js '')'')
      then [diag lineNumber
              (js ''WHILE conditions should not use parentheses in Cambridge pseudocode'') Error]
      else [])"

definition hasUnclosedString :: "jstring \<Rightarrow> bool" where
  \<comment> \<open>\<^verbatim>\<open>trimmedLine.match(/"/g)\<close> has an odd number of elements\<close>
  "hasUnclosedString trimmedLine = (length (filter (\<lambda>c. c = 34) trimmedLine) mod 2 \<noteq> 0)"

definition unclosedString :: "nat \<Rightarrow> SyntaxError" where
  "unclosedString lineNumber =
     diag lineNumber (js ''Unclosed string - missing closing quote'') Error"

definition checkUnclosedString :: "nat \<Rightarrow> jstring \<Rightarrow> SyntaxError list" where
  "checkUnclosedString lineNumber trimmedLine =
     (if hasUnclosedString trimmedLine then [unclosedString lineNumber] else [])"

definition checkCharLiterals :: "nat \<Rightarrow> jstring \<Rightarrow> SyntaxError list" where
  "checkCharLiterals lineNumber trimmedLine =
     concat (map (\<lambda>content.
       if length content = 0
       then [diag lineNumber
               (js ''Empty CHAR literal - CHAR must contain exactly one character'') Error]
       else if length content > 1 \<and> \<not> startsWith content [92]
       then [diag lineNumber
               (js ''CHAR literal can only contain one character. Use double quotes for strings'')
               Error]
       else []) (quotedContents 39 trimmedLine))"

definition checkCharDeclaration :: "nat \<Rightarrow> jstring \<Rightarrow> SyntaxError list" where
  "checkCharDeclaration lineNumber trimmedLine =
     (if searchFirst declareCharAt trimmedLine \<noteq> None \<and> includesStr trimmedLine [34]
      then [diag lineNumber
              (js ''CHAR literals must use single quotes ('' @ sq @ js ''), not double quotes (''
               @ [34] @ js '')'') Error]
      else [])"

definition checkCharAssignment ::
  "nat \<Rightarrow> jstring \<Rightarrow> (jstring \<rightharpoonup> jstring \<times> nat) \<Rightarrow> SyntaxError list" where
  "checkCharAssignment lineNumber trimmedLine types =
     (if includesStr trimmedLine [arrow] then
        (case searchFirst assignStringAt trimmedLine of
           None \<Rightarrow> []
         | Some name \<Rightarrow>
             (case types (toLowerCase name) of
                None \<Rightarrow> []
              | Some (varType, l) \<Rightarrow>
                  if toUpperCase varType = js ''CHAR''
                  then [diag lineNumber
                          (js ''CHAR variable '' @ sq @ name @ sq @ js '' must use single quotes (''
                           @ sq @ js '') for character literals, not double quotes ('' @ [34]
                           @ js '')'') Error]
                  else []))
      else [])"

definition outOfBounds :: "nat \<Rightarrow> nat \<Rightarrow> jstring \<Rightarrow> nat \<Rightarrow> nat \<Rightarrow> SyntaxError" where
  "outOfBounds lineNumber accessIndex name start end =
     diag lineNumber
       (js ''Array index '' @ showNat accessIndex @ js '' is out of bounds. Array '' @ sq @ name
        @ sq @ js '' valid range is ['' @ showNat start @ js '':'' @ showNat end @ js '']'') Error"

definition checkAccess ::
  "nat \<Rightarrow> (jstring \<rightharpoonup> nat \<times> nat \<times> nat) \<Rightarrow> jstring \<Rightarrow> SyntaxError list" where
  \<comment> \<open>the body of \<^verbatim>\<open>arrayAccessMatch.forEach\<close>\<close>
  "checkAccess lineNumber arrays access =
     (case arrayAccessMatch access of
        None \<Rightarrow> []
      | Some (name, ds) \<Rightarrow>
          (case arrays (toLowerCase name) of
             None \<Rightarrow> []
           | Some (start, end, l) \<Rightarrow>
               if parseInt ds < start \<or> parseInt ds > end
               then [outOfBounds lineNumber (parseInt ds) name start end]
               else []))"

definition checkArrayBounds ::
  "nat \<Rightarrow> jstring \<Rightarrow> (jstring \<rightharpoonup> nat \<times> nat \<times> nat) \<Rightarrow> SyntaxError list" where
  "checkArrayBounds lineNumber trimmedLine arrays =
     concat (map (checkAccess lineNumber arrays) (arrayAccessMatches trimmedLine))"

definition undeclared :: "nat \<Rightarrow> jstring \<Rightarrow> SyntaxError" where
  "undeclared lineNumber varName =
     diag lineNumber (js ''Variable '' @ sq @ varName @ sq @ js '' must be declared before use'')
       Error"

definition checkAssignmentTarget :: "nat \<Rightarrow> jstring \<Rightarrow> jstring set \<Rightarrow> SyntaxError list" where
  "checkAssignmentTarget lineNumber trimmedLine declared =
     (if includesStr trimmedLine [arrow] then
        (case assignmentTarget trimmedLine of
           None \<Rightarrow> []
         | Some varName \<Rightarrow>
             if toLowerCase varName \<notin> declared then [undeclared lineNumber varName]
             else [])
      else [])"

definition checkVariableUsage ::
  "nat \<Rightarrow> jstring \<Rightarrow> jstring \<Rightarrow> bool \<Rightarrow> jstring set \<Rightarrow> SyntaxError list" where
  \<comment> \<open>the reference check on lines with OUTPUT, INPUT, IF or WHILE\<close>
  "checkVariableUsage lineNumber trimmedLine lineToCheck unclosed declared =
     (if \<not> unclosed \<and> (includesStr trimmedLine (js ''OUTPUT'') \<or> includesStr trimmedLine (js ''INPUT'')
                       \<or> includesStr trimmedLine (js ''IF'') \<or> includesStr trimmedLine (js ''WHILE''))
      then concat (map (\<lambda>m.
             if toUpperCase m \<in> set KEYWORDS then []
             else if toUpperCase m \<in> set (map js [''OUTPUT'', ''INPUT'', ''IF'', ''WHILE'', ''THEN''])
             then []
             else if includesStr lineToCheck (m @ js ''('') then []
             else if toLowerCase m \<notin> declared then [undeclared lineNumber m]
             else []) (variableMatches lineToCheck))
      else [])"

definition checkCall :: "nat \<Rightarrow> jstring \<Rightarrow> jstring set \<Rightarrow> SyntaxError list" where
  "checkCall lineNumber trimmedLine functions =
     (if startsWith trimmedLine (js ''CALL '') then
        (case searchFirst (keywordNameAt (js ''CALL'')) trimmedLine of
           None \<Rightarrow> []
         | Some name \<Rightarrow>
             if toLowerCase name \<in> functions
             then [diag lineNumber
                     (js ''CALL should not be used with functions. Use function calls directly: ''
                      @ name @ js ''(...)'') Error]
             else [])
      else [])"

definition checkOpenfile :: "nat \<Rightarrow> jstring \<Rightarrow> SyntaxError list" where
  "checkOpenfile lineNumber trimmedLine =
     (if startsWith trimmedLine (js ''OPENFILE'') then
        (case searchFirst openfileAt trimmedLine of
           Some m \<Rightarrow>
             if toUpperCase m \<notin> set (map js [''READ'', ''WRITE'', ''APPEND''])
             then [diag lineNumber
                     (js ''Invalid file mode '' @ sq @ toUpperCase m @ sq
                      @ js ''. Valid modes are: READ, WRITE, APPEND'') Error]
             else []
         | None \<Rightarrow>
             if includesStr trimmedLine (js ''FOR'')
             then [diag lineNumber
                     (js ''OPENFILE syntax should be: OPENFILE filename FOR mode (READ/write/append)'')
                     Error]
             else [])
      else [])"

fun findIndexAux :: "(jstring \<Rightarrow> bool) \<Rightarrow> nat \<Rightarrow> jstring list \<Rightarrow> nat option" where
  "findIndexAux P i [] = None"
| "findIndexAux P i (l # ls) = (if P l then Some i else findIndexAux P (Suc i) ls)"

definition findIndexAfter :: "(jstring \<Rightarrow> bool) \<Rightarrow> nat \<Rightarrow> jstring list \<Rightarrow> nat option" where
  \<comment> \<open>\<^verbatim>\<open>lines.findIndex((line, idx) => idx > index && P(line))\<close>\<close>
  "findIndexAfter P index lines = findIndexAux P (Suc index) (drop (Suc index) lines)"

definition checkEndfor :: "jstring list \<Rightarrow> nat \<Rightarrow> jstring \<Rightarrow> SyntaxError list" where
  "checkEndfor lines index trimmedLine =
     (if startsWith trimmedLine (js ''FOR'') then
        (case findIndexAfter (\<lambda>l. startsWith (trim l) (js ''ENDFOR'')) index lines of
           None \<Rightarrow> []
         | Some endforLine \<Rightarrow>
             [diag (endforLine + 1) (js ''FOR loops must end with NEXT, not ENDFOR'') Error])
      else [])"

definition declareParam :: "nat \<Rightarrow> scan \<Rightarrow> jstring \<Rightarrow> scan" where
  \<comment> \<open>the body of \<^verbatim>\<open>params.forEach\<close>\<close>
  "declareParam lineNumber st param =
     (case splitOn 58 (trim param) of
        [paramName, paramType] \<Rightarrow>
          if trim paramName \<noteq> [] \<and> isIdentifier (trim paramName)
          then st\<lparr>declaredVariables := insert (toLowerCase (trim paramName)) (declaredVariables st),
                  variableTypes := (variableTypes st)
                     (toLowerCase (trim paramName) \<mapsto> (trim paramType, lineNumber))\<rparr>
          else st
      | _ \<Rightarrow> st)"

definition declareParams :: "nat \<Rightarrow> jstring \<Rightarrow> jstring \<Rightarrow> scan \<Rightarrow> scan" where
  "declareParams lineNumber kw trimmedLine st =
     (case searchFirst (paramsAt kw) trimmedLine of
        None \<Rightarrow> st
      | Some inner \<Rightarrow>
          if trim inner \<noteq> [] then foldl (declareParam lineNumber) st (splitOn 44 inner) else st)"

definition checkFunction :: "nat \<Rightarrow> jstring \<Rightarrow> scan \<Rightarrow> scan" where
  "checkFunction lineNumber trimmedLine st =
     (if startsWith trimmedLine (js ''FUNCTION'') then
        let st1 = (if \<not> includesStr trimmedLine (js ''RETURNS'')
                   then push [diag lineNumber
                                (js ''FUNCTION must specify return type with RETURNS'') Error] st
                   else st);
            st2 = (case searchFirst (keywordNameAt (js ''FUNCTION'')) trimmedLine of
                     None \<Rightarrow> st1
                   | Some name \<Rightarrow>
                       st1\<lparr>declaredFunctions := insert (toLowerCase name) (declaredFunctions st1)\<rparr>)
        in declareParams lineNumber (js ''FUNCTION'') trimmedLine st2
      else st)"

definition checkProcedure :: "nat \<Rightarrow> jstring \<Rightarrow> scan \<Rightarrow> scan" where
  "checkProcedure lineNumber trimmedLine st =
     (if startsWith trimmedLine (js ''PROCEDURE'')
      then declareParams lineNumber (js ''PROCEDURE'') trimmedLine st
      else st)"

definition isSkipped :: "jstring \<Rightarrow> bool" where
  \<comment> \<open>empty lines and comments\<close>
  "isSkipped ln = (trim ln = [] \<or> startsWith (trim ln) (js ''//''))"

definition lineRules :: "jstring list \<Rightarrow> nat \<Rightarrow> jstring \<Rightarrow> (scan \<Rightarrow> scan) list" where
  \<comment> \<open>the checks of one line, in the order of the source\<close>
  "lineRules lines index ln =
     (let lineNumber = index + 1;
          trimmedLine = trim ln;
          words = splitSpaces trimmedLine;
          lineWithoutStrings = stripLiterals trimmedLine
      in [\<lambda>st. push (checkIndentation lineNumber ln) st,
          \<lambda>st. push (checkAssignmentOperator lineNumber trimmedLine) st,
          \<lambda>st. push (checkIdentifiers lineNumber trimmedLine) st,
          \<lambda>st. push (checkStructure lineNumber trimmedLine words) st,
          checkFirstWord lineNumber words,
          \<lambda>st. push (checkKeywordCase lineNumber lineWithoutStrings) st,
          \<lambda>st. push (checkInvalidKeywords lineNumber words) st,
          checkDeclare lineNumber trimmedLine,
          checkConstant lineNumber trimmedLine,
          \<lambda>st. push (checkArrayFormat lineNumber trimmedLine) st,
          \<lambda>st. push (checkFor lineNumber trimmedLine) st,
          \<lambda>st. push (checkCaseOf lineNumber trimmedLine) st,
          \<lambda>st. push (checkWhile lineNumber trimmedLine) st,
          \<lambda>st. push (checkUnclosedString lineNumber trimmedLine) st,
          \<lambda>st. push (checkCharLiterals lineNumber trimmedLine) st,
          \<lambda>st. push (checkCharDeclaration lineNumber trimmedLine) st,
          \<lambda>st. push (checkCharAssignment lineNumber trimmedLine (variableTypes st)) st,
          \<lambda>st. push (checkArrayBounds lineNumber trimmedLine (arrayDeclarations st)) st,
          \<lambda>st. push (checkAssignmentTarget lineNumber trimmedLine (declaredVariables st)) st,
          \<lambda>st. push (checkVariableUsage lineNumber trimmedLine lineWithoutStrings
                        (hasUnclosedString trimmedLine) (declaredVariables st)) st,
          \<lambda>st. push (checkCall lineNumber trimmedLine (declaredFunctions st)) st,
          \<lambda>st. push (checkOpenfile lineNumber trimmedLine) st,
          \<lambda>st. push (checkEndfor lines index trimmedLine) st,
          checkFunction lineNumber trimmedLine,
          checkProcedure lineNumber trimmedLine])"

definition processLine :: "jstring list \<Rightarrow> scan \<Rightarrow> nat \<times> jstring \<Rightarrow> scan" where
  \<comment> \<open>the body of the first \<^verbatim>\<open>lines.forEach\<close>\<close>
  "processLine lines st il =
     (if isSkipped (snd il) then st
      else foldl (\<lambda>s rule. rule s) st (lineRules lines (fst il) (snd il)))"

definition linePass :: "jstring list \<Rightarrow> scan" where
  "linePass lines = foldl (processLine lines) initScan (enumerate 0 lines)"

section \<open>The sweeps over the whole file\<close>

definition unmatched :: "jstring \<times> nat \<Rightarrow> SyntaxError" where
  \<comment> \<open>the body of \<^verbatim>\<open>blockStack.forEach\<close>\<close>
  "unmatched block =
     diag (snd block) (js ''Unmatched '' @ fst block @ js '' - missing '' @ closerOf (fst block))
       Error"

definition closerFamilies :: "(jstring \<times> jstring) list" where
  \<comment> \<open>a closing line and the prefix that counts as its opening\<close>
  "closerFamilies = map (\<lambda>(k, v). (js k, js v))
     [(''ENDIF'', ''IF ''), (''ENDWHILE'', ''WHILE ''), (''ENDPROCEDURE'', ''PROCEDURE ''),
      (''ENDFUNCTION'', ''FUNCTION ''), (''ENDCASE'', ''CASE ''), (''ENDTYPE'', ''TYPE '')]"

definition checkExtraCloser :: "jstring list \<Rightarrow> nat \<times> jstring \<Rightarrow> SyntaxError list" where
  "checkExtraCloser lines il =
     (case map_of closerFamilies (trim (snd il)) of
        None \<Rightarrow> []
      | Some opener \<Rightarrow>
          let checkLines = map trim (take (fst il + 1) lines);
              openCount = length (filter (\<lambda>checkLine. startsWith checkLine opener) checkLines);
              closeCount = length (filter (\<lambda>checkLine. checkLine = trim (snd il)) checkLines)
          in if closeCount > openCount
             then [diag (fst il + 1)
                     (js ''Extra '' @ trim (snd il) @ js '' - no matching opening block'') Error]
             else [])"

definition checkLengthCall ::
  "(jstring \<rightharpoonup> jstring \<times> nat) \<Rightarrow> nat \<Rightarrow> jstring \<Rightarrow> SyntaxError list" where
  "checkLengthCall types lineNumber m =
     (case lengthMatch m of
        None \<Rightarrow> []
      | Some name \<Rightarrow>
          (case types (toLowerCase name) of
             None \<Rightarrow> []
           | Some (varType, l) \<Rightarrow>
               if \<not> includesStr (toUpperCase varType) (js ''STRING'')
                  \<and> \<not> includesStr (toUpperCase varType) (js ''ARRAY'')
               then [diag lineNumber
                       (js ''LENGTH() can only be used with STRING or ARRAY variables, not ''
                        @ varType) Error]
               else []))"

definition checkLength ::
  "(jstring \<rightharpoonup> jstring \<times> nat) \<Rightarrow> nat \<times> jstring \<Rightarrow> SyntaxError list" where
  "checkLength types il =
     concat (map (checkLengthCall types (fst il + 1)) (lengthMatches (trim (snd il))))"

fun findNext :: "nat \<Rightarrow> jstring list \<Rightarrow> nat option" where
  \<comment> \<open>the inner \<^verbatim>\<open>for\<close> loop of the sweep for empty loops: the index of the first line
      that starts with NEXT, unless another control structure comes first\<close>
  "findNext i [] = None"
| "findNext i (l # ls) =
     (if startsWith (trim l) (js ''NEXT '') then Some i
      else if startsWith (trim l) (js ''FOR '') \<or> startsWith (trim l) (js ''WHILE '')
              \<or> startsWith (trim l) (js ''IF '') \<or> startsWith (trim l) (js ''PROCEDURE '')
              \<or> startsWith (trim l) (js ''FUNCTION '')
      then None
      else findNext (Suc i) ls)"

definition emptyLoop :: "nat \<Rightarrow> SyntaxError" where
  "emptyLoop lineNumber =
     diag lineNumber
       (js ''Empty FOR loop body - consider adding statements or removing the loop'') Warning"

definition checkEmptyLoop :: "jstring list \<Rightarrow> nat \<times> jstring \<Rightarrow> SyntaxError list" where
  "checkEmptyLoop lines il =
     (if startsWith (trim (snd il)) (js ''FOR '') \<and> includesStr (trim (snd il)) (js '' TO '')
         \<and> findNext (fst il + 1) (drop (fst il + 1) lines) = Some (fst il + 1)
      then [emptyLoop (fst il + 1)] else [])"

definition errorKey :: "SyntaxError \<Rightarrow> jstring" where
  "errorKey e = showNat (line e) @ js '':'' @ message e"

fun deduplicateAux :: "jstring set \<Rightarrow> SyntaxError list \<Rightarrow> SyntaxError list" where
  "deduplicateAux errorKeys [] = []"
| "deduplicateAux errorKeys (e # es) =
     (if errorKey e \<in> errorKeys then deduplicateAux errorKeys es
      else e # deduplicateAux (insert (errorKey e) errorKeys) es)"

definition deduplicate :: "SyntaxError list \<Rightarrow> SyntaxError list" where
  "deduplicate es = deduplicateAux {} es"

definition hasActualCode :: "jstring list \<Rightarrow> bool" where
  "hasActualCode lines = list_ex (\<lambda>ln. trim ln \<noteq> [] \<and> \<not> startsWith (trim ln) (js ''//'')) lines"

definition noContent :: SyntaxError where
  "noContent = diag 1 (js ''No pseudocode content found. Please write some pseudocode.'') Error"

definition allErrors :: "jstring list \<Rightarrow> SyntaxError list" where
  \<comment> \<open>\<^verbatim>\<open>errors\<close> when the deduplication starts\<close>
  "allErrors lines =
     (let st = linePass lines
      in errs st
         @ map unmatched (blockStack st)
         @ concat (map (checkExtraCloser lines) (enumerate 0 lines))
         @ concat (map (checkLength (variableTypes st)) (enumerate 0 lines))
         @ concat (map (checkEmptyLoop lines) (enumerate 0 lines)))"

definition checkSyntax :: "jstring \<Rightarrow> SyntaxCheckResult" where
  "checkSyntax code =
     (let lines = splitOn 10 code
      in if \<not> hasActualCode lines then \<lparr>isValid = False, errors = [noContent]\<rparr>
         else let uniqueErrors = deduplicate (allErrors lines)
              in \<lparr>isValid = (length (filter (\<lambda>e. type e = Error) uniqueErrors) = 0),
                  errors = uniqueErrors\<rparr>)"

section \<open>Notions used to state the properties\<close>

definition stateBefore :: "jstring list \<Rightarrow> nat \<Rightarrow> scan" where
  \<comment> \<open>the state of the line pass when it reaches the line of index \<open>i\<close>\<close>
  "stateBefore lines i = foldl (processLine lines) initScan (take i (enumerate 0 lines))"

definition firstWord :: "jstring \<Rightarrow> jstring" where
  \<comment> \<open>\<^verbatim>\<open>words[0]\<close> of a line\<close>
  "firstWord ln = (case splitSpaces (trim ln) of [] \<Rightarrow> [] | w # ws \<Rightarrow> w)"

definition fam :: "jstring \<Rightarrow> jstring" where
  \<comment> \<open>the fixed beginning of a message, which tells the checks apart: messages that
      start with a quoted word are told by the quote\<close>
  "fam m = (if take 1 m = sq then sq else take 7 m)"

definition kind :: "SyntaxError \<Rightarrow> jstring \<times> severity" where
  "kind e = (fam (message e), type e)"

definition isFam :: "jstring \<Rightarrow> SyntaxError \<Rightarrow> bool" where
  "isFam t e = (fam (message e) = t)"

definition emits :: "(jstring \<times> severity) list \<Rightarrow> (scan \<Rightarrow> scan) \<Rightarrow> bool" where
  \<comment> \<open>a check only appends diagnostics, all of the given kinds\<close>
  "emits K r = (\<forall>st. \<exists>ds. errs (r st) = errs st @ ds \<and> (\<forall>e \<in> set ds. kind e \<in> set K))"

section \<open>Numbers in messages and the key of a diagnostic\<close>

lemma parseInt_snoc: "parseInt (ds @ [d]) = 10 * parseInt ds + (d - 48)"
  by simp

lemma showNat_digits: "c \<in> set (showNat n) \<Longrightarrow> isDigit c"
proof (induction n arbitrary: c rule: showNat.induct)
  case (1 n)
  show ?case
  proof (cases "n < 10")
    case True
    with "1.prems" show ?thesis by (simp add: showNat.simps [of n] isDigit_def)
  next
    case False
    with "1.prems" have "c \<in> set (showNat (n div 10)) \<or> c = 48 + n mod 10"
      by (auto simp add: showNat.simps [of n])
    then show ?thesis
    proof
      assume "c \<in> set (showNat (n div 10))"
      with False show ?thesis by (simp add: "1.IH")
    next
      assume "c = 48 + n mod 10"
      moreover have "n mod 10 < 10" by simp
      ultimately show ?thesis unfolding isDigit_def by linarith
    qed
  qed
qed

lemma parseInt_showNat: "parseInt (showNat n) = n"
proof (induction n rule: showNat.induct)
  case (1 n)
  show ?case
  proof (cases "n < 10")
    case True
    then show ?thesis by (simp add: showNat.simps [of n])
  next
    case False
    then have "parseInt (showNat n) = 10 * parseInt (showNat (n div 10)) + n mod 10"
      by (simp add: showNat.simps [of n])
    with False "1.IH" show ?thesis by simp
  qed
qed

lemma showNat_inj: "showNat a = showNat b \<Longrightarrow> a = b"
  by (metis parseInt_showNat)

lemma split_at_separator:
  assumes "xs @ c # ys = xs' @ c # ys'" and "c \<notin> set xs" and "c \<notin> set xs'"
  shows "xs = xs' \<and> ys = ys'"
proof -
  have tw: "takeWhile (\<lambda>x. x \<noteq> c) (zs @ c # ws) = zs" if "c \<notin> set zs" for zs ws
    using that by (induction zs) auto
  have "xs = xs'"
    using tw [OF assms(2), of ys] tw [OF assms(3), of ys'] assms(1) by simp
  with assms(1) show ?thesis by simp
qed

lemma errorKey_eq_iff: "errorKey e = errorKey e' \<longleftrightarrow> line e = line e' \<and> message e = message e'"
proof
  assume eq: "errorKey e = errorKey e'"
  have n1: "58 \<notin> set (showNat (line e))" and n2: "58 \<notin> set (showNat (line e'))"
    using showNat_digits [of 58] by (auto simp: isDigit_def)
  from eq have "showNat (line e) @ 58 # message e = showNat (line e') @ 58 # message e'"
    by (simp add: errorKey_def js_def)
  from split_at_separator [OF this n1 n2] show "line e = line e' \<and> message e = message e'"
    by (auto dest: showNat_inj)
next
  assume "line e = line e' \<and> message e = message e'"
  then show "errorKey e = errorKey e'" by (simp add: errorKey_def)
qed

lemma deduplicateAux_keys:
  "distinct (map errorKey (deduplicateAux K es)) \<and> errorKey ` set (deduplicateAux K es) \<inter> K = {}"
proof (induction es arbitrary: K)
  case Nil
  show ?case by simp
next
  case (Cons e es)
  show ?case
  proof (cases "errorKey e \<in> K")
    case True
    with Cons.IH [of K] show ?thesis by simp
  next
    case False
    with Cons.IH [of "insert (errorKey e) K"] show ?thesis by auto
  qed
qed

lemma deduplicateAux_fixed:
  "distinct (map errorKey es) \<Longrightarrow> errorKey ` set es \<inter> K = {} \<Longrightarrow> deduplicateAux K es = es"
  by (induction es arbitrary: K) auto

lemma deduplicateAux_subset: "set (deduplicateAux K es) \<subseteq> set es"
  by (induction es arbitrary: K) auto

lemma deduplicate_idem: "deduplicate (deduplicate es) = deduplicate es"
  unfolding deduplicate_def
  using deduplicateAux_keys [of "{}" es] by (intro deduplicateAux_fixed) auto

lemma deduplicate_distinct: "distinct (map (\<lambda>e. (line e, message e)) (deduplicate es))"
proof -
  have "distinct (map errorKey (deduplicate es))"
    unfolding deduplicate_def using deduplicateAux_keys [of "{}" es] by simp
  then have "inj_on errorKey (set (deduplicate es))" and d: "distinct (deduplicate es)"
    by (auto simp: distinct_map)
  then have "inj_on (\<lambda>e. (line e, message e)) (set (deduplicate es))"
    by (auto simp: inj_on_def errorKey_eq_iff)
  with d show ?thesis by (simp add: distinct_map)
qed

subsection \<open>Checks only append diagnostics\<close>

lemma emitsI:
  assumes "\<And>st. \<exists>ds. errs (r st) = errs st @ ds \<and> (\<forall>e \<in> set ds. kind e \<in> set K)"
  shows "emits K r"
  using assms by (simp add: emits_def)

lemma emits_mono: "emits K r \<Longrightarrow> set K \<subseteq> set K' \<Longrightarrow> emits K' r"
  unfolding emits_def by (meson subsetD)

lemma emits_id: "emits K (\<lambda>st. st)"
  by (simp add: emits_def)

lemma emits_comp:
  assumes "emits K r" and "emits K r'"
  shows "emits K (\<lambda>st. r' (r st))"
proof (rule emitsI)
  fix st
  from assms(1) obtain ds where ds: "errs (r st) = errs st @ ds" "\<forall>e \<in> set ds. kind e \<in> set K"
    unfolding emits_def by blast
  from assms(2) obtain ds' where ds': "errs (r' (r st)) = errs (r st) @ ds'"
      "\<forall>e \<in> set ds'. kind e \<in> set K"
    unfolding emits_def by blast
  from ds ds' have "errs (r' (r st)) = errs st @ (ds @ ds') \<and> (\<forall>e \<in> set (ds @ ds'). kind e \<in> set K)"
    by auto
  then show "\<exists>ds. errs (r' (r st)) = errs st @ ds \<and> (\<forall>e \<in> set ds. kind e \<in> set K)" ..
qed

lemma emits_foldl_rules:
  assumes "\<forall>r \<in> set rs. emits K r"
  shows "emits K (\<lambda>st. foldl (\<lambda>s r. r s) st rs)"
  using assms
proof (induction rs rule: rev_induct)
  case Nil
  show ?case by (simp add: emits_id)
next
  case (snoc r rs)
  then have "emits K (\<lambda>st. foldl (\<lambda>s r. r s) st rs)" and "emits K r" by simp_all
  from emits_comp [OF this] show ?case by simp
qed

lemma emits_foldl_items:
  assumes "\<And>x. emits K (\<lambda>st. f st x)"
  shows "emits K (\<lambda>st. foldl f st xs)"
proof (induction xs rule: rev_induct)
  case Nil
  show ?case by (simp add: emits_id)
next
  case (snoc x xs)
  from emits_comp [OF snoc assms [of x]] show ?case by simp
qed

lemma emits_push:
  assumes "\<And>st. list_all (\<lambda>e. kind e \<in> set K') (f st)" and "set K' \<subseteq> set K"
  shows "emits K (\<lambda>st. push (f st) st)"
proof (rule emitsI)
  fix st
  from assms have "\<forall>e \<in> set (f st). kind e \<in> set K"
    by (auto simp: list_all_iff)
  then show "\<exists>ds. errs (push (f st) st) = errs st @ ds \<and> (\<forall>e \<in> set ds. kind e \<in> set K)"
    by (simp add: push_def)
qed

lemma list_all_concat_map:
  "list_all P (concat (map f xs)) = list_all (\<lambda>x. list_all P (f x)) xs"
  by (induction xs) simp_all

lemma emits_silent:
  assumes "\<And>st. errs (r st) = errs st"
  shows "emits K r"
  using assms by (simp add: emits_def)

lemma family_frame:
  assumes "emits K r" and "t \<notin> fst ` set K"
  shows "filter (isFam t) (errs (r st)) = filter (isFam t) (errs st)"
proof -
  from assms(1) obtain ds where ds: "errs (r st) = errs st @ ds" "\<forall>e \<in> set ds. kind e \<in> set K"
    unfolding emits_def by blast
  have "filter (isFam t) ds = []"
  proof (rule filter_False, rule ballI)
    fix e assume "e \<in> set ds"
    with ds(2) have "kind e \<in> set K" by blast
    then have "fst (kind e) \<in> fst ` set K" by (rule imageI)
    with assms(2) show "\<not> isFam t e" by (auto simp: isFam_def kind_def)
  qed
  with ds(1) show ?thesis by simp
qed

lemma table_frame:
  assumes "\<forall>r \<in> set rs. \<forall>s. f (r s) = f s"
  shows "f (foldl (\<lambda>s r. r s) st rs) = f st"
  using assms by (induction rs rule: rev_induct) simp_all

lemma list_all_True: "list_all (\<lambda>x. True) xs"
  by (induction xs) simp_all

subsection \<open>The kinds of diagnostics of each check\<close>

lemma checkIndentation_kind:
  "list_all (\<lambda>e. kind e \<in> set [(js ''Indenta'', Warning)]) (checkIndentation n ln)"
  by (simp add: checkIndentation_def kind_def fam_def diag_def js_def sq_def)

lemma checkAssignmentOperator_kind:
  "list_all (\<lambda>e. kind e \<in> set [(js ''Use '' @ [arrow] @ js '' f'', Error)])
     (checkAssignmentOperator n t)"
  by (simp add: checkAssignmentOperator_def kind_def fam_def diag_def js_def sq_def)

lemma checkIdentifiers_kind:
  "list_all (\<lambda>e. kind e \<in> set [(js ''Identif'', Error)]) (checkIdentifiers n t)"
  by (simp add: checkIdentifiers_def kind_def fam_def diag_def js_def sq_def list_all_concat_map list_all_True)

lemma checkStructure_kind:
  "list_all (\<lambda>e. kind e \<in> set [(js ''This li'', Error)]) (checkStructure n t ws)"
  by (simp add: checkStructure_def kind_def fam_def diag_def js_def sq_def)

lemma keywordCase_kind: "kind (keywordCase n w) = (js ''Keyword'', Error)"
  by (simp add: keywordCase_def kind_def fam_def diag_def js_def sq_def)

lemma checkKeywordCase_kind:
  "list_all (\<lambda>e. kind e \<in> set [(js ''Keyword'', Error)]) (checkKeywordCase n t)"
  by (simp add: checkKeywordCase_def keywordCase_kind list_all_concat_map list_all_True)

lemma checkInvalidKeywords_kind:
  "list_all (\<lambda>e. kind e \<in> set [(sq, Error)]) (checkInvalidKeywords n ws)"
  by (simp add: checkInvalidKeywords_def kind_def fam_def diag_def sq_def list_all_concat_map list_all_True)

lemma checkArrayFormat_kind:
  "list_all (\<lambda>e. kind e \<in> set [(js ''ARRAY d'', Error)]) (checkArrayFormat n t)"
  by (simp add: checkArrayFormat_def kind_def fam_def diag_def js_def sq_def)

lemma checkFor_kind:
  "list_all (\<lambda>e. kind e \<in> set [(js ''FOR loo'', Error)]) (checkFor n t)"
  by (simp add: checkFor_def kind_def fam_def diag_def js_def sq_def)

lemma checkCaseOf_kind:
  "list_all (\<lambda>e. kind e \<in> set [(js ''CASE st'', Error)]) (checkCaseOf n t)"
  by (simp add: checkCaseOf_def kind_def fam_def diag_def js_def sq_def)

lemma checkWhile_kind:
  "list_all (\<lambda>e. kind e \<in> set [(js ''WHILE c'', Error)]) (checkWhile n t)"
  by (simp add: checkWhile_def kind_def fam_def diag_def js_def sq_def)

lemma unclosedString_kind: "kind (unclosedString n) = (js ''Unclose'', Error)"
  by (simp add: unclosedString_def kind_def fam_def diag_def js_def sq_def)

lemma checkUnclosedString_kind:
  "list_all (\<lambda>e. kind e \<in> set [(js ''Unclose'', Error)]) (checkUnclosedString n t)"
  by (simp add: checkUnclosedString_def unclosedString_kind)

lemma checkCharLiterals_kind:
  "list_all (\<lambda>e. kind e \<in> set [(js ''Empty C'', Error), (js ''CHAR li'', Error)])
     (checkCharLiterals n t)"
  by (simp add: checkCharLiterals_def kind_def fam_def diag_def js_def sq_def list_all_concat_map list_all_True)

lemma checkCharDeclaration_kind:
  "list_all (\<lambda>e. kind e \<in> set [(js ''CHAR li'', Error)]) (checkCharDeclaration n t)"
  by (simp add: checkCharDeclaration_def kind_def fam_def diag_def js_def sq_def)

lemma checkCharAssignment_kind:
  "list_all (\<lambda>e. kind e \<in> set [(js ''CHAR va'', Error)]) (checkCharAssignment n t types)"
  by (simp add: checkCharAssignment_def kind_def fam_def diag_def js_def sq_def
      split: option.split)

lemma outOfBounds_kind: "kind (outOfBounds n a name lo hi) = (js ''Array i'', Error)"
  by (simp add: outOfBounds_def kind_def fam_def diag_def js_def sq_def)

lemma checkAccess_kind:
  "list_all (\<lambda>e. kind e \<in> set [(js ''Array i'', Error)]) (checkAccess n arrays a)"
  by (simp add: checkAccess_def outOfBounds_kind split: option.split)

lemma checkArrayBounds_kind:
  "list_all (\<lambda>e. kind e \<in> set [(js ''Array i'', Error)]) (checkArrayBounds n t arrays)"
  using checkAccess_kind [of n arrays]
  by (simp add: checkArrayBounds_def list_all_concat_map list_all_True)

lemma undeclared_kind: "kind (undeclared n v) = (js ''Variabl'', Error)"
  by (simp add: undeclared_def kind_def fam_def diag_def js_def sq_def)

lemma checkAssignmentTarget_kind:
  "list_all (\<lambda>e. kind e \<in> set [(js ''Variabl'', Error)]) (checkAssignmentTarget n t declared)"
  by (simp add: checkAssignmentTarget_def undeclared_kind split: option.split)

lemma checkVariableUsage_kind:
  "list_all (\<lambda>e. kind e \<in> set [(js ''Variabl'', Error)]) (checkVariableUsage n t l u declared)"
  by (simp add: checkVariableUsage_def undeclared_kind list_all_concat_map list_all_True)

lemma checkCall_kind:
  "list_all (\<lambda>e. kind e \<in> set [(js ''CALL sh'', Error)]) (checkCall n t functions)"
  by (simp add: checkCall_def kind_def fam_def diag_def js_def sq_def split: option.split)

lemma checkOpenfile_kind:
  "list_all (\<lambda>e. kind e \<in> set [(js ''Invalid'', Error), (js ''OPENFIL'', Error)])
     (checkOpenfile n t)"
  by (simp add: checkOpenfile_def kind_def fam_def diag_def js_def sq_def split: option.split)

lemma checkEndfor_kind:
  "list_all (\<lambda>e. kind e \<in> set [(js ''FOR loo'', Error)]) (checkEndfor lines i t)"
  by (simp add: checkEndfor_def kind_def fam_def diag_def js_def sq_def split: option.split)

lemma unexpectedCloser_kind: "kind (unexpectedCloser n w) = (js ''Unexpec'', Error)"
  by (simp add: unexpectedCloser_def kind_def fam_def diag_def js_def sq_def)

lemma expectedCloser_kind: "kind (expectedCloser n k w) = (js ''Expecte'', Error)"
  by (simp add: expectedCloser_def kind_def fam_def diag_def js_def sq_def)

lemma closeBlock_errs:
  "errs (closeBlock n w st) = errs st @
     (if blockStack st = [] then [unexpectedCloser n w]
      else if isMismatch (fst (last (blockStack st))) w
      then [expectedCloser n (fst (last (blockStack st))) w] else [])"
  by (simp add: closeBlock_def push_def Let_def)

lemma closeBlock_blockStack: "blockStack (closeBlock n w st) = butlast (blockStack st)"
  by (simp add: closeBlock_def push_def Let_def)


lemma isCloser_iff:
  "isCloser w \<longleftrightarrow> w \<in> set (map js [''ENDIF'', ''NEXT'', ''ENDWHILE'', ''UNTIL'', ''ENDPROCEDURE'',
      ''ENDFUNCTION'', ''ENDCASE'', ''ENDTYPE''])"
  by (simp add: isCloser_def closingKeywords_def BLOCK_KEYWORDS_def) blast

lemma closer_facts:
  assumes "isCloser w"
  shows "isUpperWord w" and "map_of BLOCK_KEYWORDS w = None" and "w \<in> set KEYWORDS"
proof -
  from assms have w: "w = js ''ENDIF'' \<or> w = js ''NEXT'' \<or> w = js ''ENDWHILE'' \<or> w = js ''UNTIL''
      \<or> w = js ''ENDPROCEDURE'' \<or> w = js ''ENDFUNCTION'' \<or> w = js ''ENDCASE'' \<or> w = js ''ENDTYPE''"
    by (simp add: isCloser_iff)
  show "isUpperWord w"
    using w by (elim disjE) (simp_all add: js_def isUpperWord_def isUpper_def)
  show "map_of BLOCK_KEYWORDS w = None"
    using w by (elim disjE) (simp_all add: js_def BLOCK_KEYWORDS_def)
  show "w \<in> set KEYWORDS"
    using w by (elim disjE) (simp_all add: js_def KEYWORDS_def)
qed
lemma checkFirstWord_errs:
  "errs (checkFirstWord n (w # ws) st) = errs st @
     (if isUpperWord w \<and> w \<notin> set KEYWORDS \<and> \<not> isUpperIdentifier w
      then [diag n (js ''Unknown keyword: '' @ w) Error] else [])
     @ (if isCloser w then
          (if blockStack st = [] then [unexpectedCloser n w]
           else if isMismatch (fst (last (blockStack st))) w
           then [expectedCloser n (fst (last (blockStack st))) w] else [])
        else [])"
  using closer_facts [of w]
  by (simp add: checkFirstWord_def push_def Let_def closeBlock_errs)

lemma checkFirstWord_blockStack:
  "blockStack (checkFirstWord n (w # ws) st) =
     (if isUpperWord w \<and> map_of BLOCK_KEYWORDS w \<noteq> None then blockStack st @ [(w, n)]
      else if isCloser w then butlast (blockStack st)
      else blockStack st)"
  using closer_facts [of w]
  by (auto simp add: checkFirstWord_def push_def Let_def closeBlock_blockStack)


lemma splitSpacesAux_nonempty: "splitSpacesAux cur b s \<noteq> []"
  by (induction s arbitrary: cur b) simp_all

lemma splitSpaces_firstWord: "splitSpaces (trim ln) = firstWord ln # tl (splitSpaces (trim ln))"
  using splitSpacesAux_nonempty [of "[]" False "trim ln"]
  by (simp add: firstWord_def splitSpaces_def split: list.split)

lemma checkFirstWord_emits:
  assumes "set [(js ''Unknown'', Error), (js ''Unexpec'', Error), (js ''Expecte'', Error)] \<subseteq> set K"
  shows "emits K (checkFirstWord n words)"
proof (cases words)
  case Nil
  then show ?thesis by (intro emits_silent) (simp add: checkFirstWord_def)
next
  case (Cons w ws)
  have u: "kind (diag n (js ''Unknown keyword: '' @ w) Error) = (js ''Unknown'', Error)"
    by (simp add: kind_def fam_def diag_def js_def sq_def)
  show ?thesis
    unfolding Cons
    by (rule emitsI)
      (use assms u in \<open>auto simp add: checkFirstWord_errs unexpectedCloser_kind expectedCloser_kind\<close>)
qed

lemma declareVariable_emits:
  assumes "set [(sq, Error), (js ''Variabl'', Error), (js ''Variabl'', Warning)] \<subseteq> set K"
  shows "emits K (\<lambda>st. declareVariable n a st v)"
  by (rule emitsI)
    (use assms in \<open>simp add: declareVariable_def push_def kind_def fam_def diag_def js_def sq_def
       split: option.split\<close>)

lemma declareVariable_blockStack: "blockStack (declareVariable n a st v) = blockStack st"
  by (simp add: declareVariable_def push_def split: option.split)

lemma foldl_keeps:
  assumes "\<And>s x. f (g s x) = f s"
  shows "f (foldl g st xs) = f st"
  by (induction xs rule: rev_induct) (simp_all add: assms)

lemma registerArray_errs: "errs (registerArray n t st) = errs st"
  by (simp add: registerArray_def split: option.split)

lemma registerArray_blockStack: "blockStack (registerArray n t st) = blockStack st"
  by (simp add: registerArray_def split: option.split)

lemma checkDeclare_blockStack: "blockStack (checkDeclare n t st) = blockStack st"
  by (simp add: checkDeclare_def push_def Let_def registerArray_blockStack
      foldl_keeps [of blockStack, OF declareVariable_blockStack] split: option.split)

lemma checkDeclare_emits:
  assumes "set [(js ''DECLARE'', Error), (sq, Error), (js ''Variabl'', Error),
                (js ''Variabl'', Warning)] \<subseteq> set K"
  shows "emits K (checkDeclare n t)"
proof -
  have dv: "emits K (\<lambda>st. foldl (declareVariable n a) st vs)" for a vs
    by (rule emits_foldl_items) (use assms in \<open>simp add: declareVariable_emits\<close>)
  have k: "kind (diag n (js ''DECLARE statement must specify variable type with colon (:)'') Error)
           = (js ''DECLARE'', Error)"
    by (simp add: kind_def fam_def diag_def js_def sq_def)
  show ?thesis
  proof (rule emitsI)
    fix st
    show "\<exists>ds. errs (checkDeclare n t st) = errs st @ ds \<and> (\<forall>e \<in> set ds. kind e \<in> set K)"
    proof (cases "startsWith t (js ''DECLARE'') \<and> includesStr t (js '':'')")
      case True
      show ?thesis
      proof (cases "indexOf (trim (drop 7 t)) 58")
        case None
        with True show ?thesis
          by (simp add: checkDeclare_def Let_def registerArray_errs)
      next
        case (Some c)
        with True dv show ?thesis
          by (simp add: checkDeclare_def Let_def registerArray_errs emits_def)
      qed
    next
      case False
      with assms k show ?thesis
        by (auto simp add: checkDeclare_def push_def)
    qed
  qed
qed

lemma checkConstant_emits:
  assumes "set [(js ''CONSTAN'', Error)] \<subseteq> set K"
  shows "emits K (checkConstant n t)"
  by (rule emitsI)
    (use assms in \<open>simp add: checkConstant_def push_def Let_def kind_def fam_def diag_def js_def sq_def
       split: option.split\<close>)

lemma checkConstant_blockStack: "blockStack (checkConstant n t st) = blockStack st"
  by (simp add: checkConstant_def push_def Let_def split: option.split)


lemma declareParam_errs: "errs (declareParam n st p) = errs st"
  by (simp add: declareParam_def split: list.split)

lemma declareParam_blockStack: "blockStack (declareParam n st p) = blockStack st"
  by (simp add: declareParam_def split: list.split)


lemma declareParams_errs: "errs (declareParams n kw t st) = errs st"
  by (simp add: declareParams_def foldl_keeps [of errs, OF declareParam_errs] split: option.split)

lemma declareParams_blockStack: "blockStack (declareParams n kw t st) = blockStack st"
  by (simp add: declareParams_def foldl_keeps [of blockStack, OF declareParam_blockStack]
      split: option.split)


lemma checkFunction_emits:
  assumes "set [(js ''FUNCTIO'', Error)] \<subseteq> set K"
  shows "emits K (checkFunction n t)"
  by (rule emitsI)
    (use assms in \<open>simp add: checkFunction_def push_def Let_def declareParams_errs
       kind_def fam_def diag_def js_def sq_def split: option.split\<close>)

lemma checkFunction_blockStack: "blockStack (checkFunction n t st) = blockStack st"
  by (simp add: checkFunction_def push_def Let_def declareParams_blockStack split: option.split)


lemma checkProcedure_emits: "emits K (checkProcedure n t)"
  by (rule emits_silent) (simp add: checkProcedure_def declareParams_errs)

lemma checkProcedure_blockStack: "blockStack (checkProcedure n t st) = blockStack st"
  by (simp add: checkProcedure_def declareParams_blockStack)


subsection \<open>The diagnostics of one family along the checks of a line\<close>

lemma isFam_kind: "isFam t e \<longleftrightarrow> fst (kind e) = t"
  by (auto simp: isFam_def kind_def)

lemma frame_push:
  assumes "list_all (\<lambda>e. kind e \<in> set K) ds" and "t \<notin> fst ` set K"
  shows "filter (isFam t) (errs (push ds st)) = filter (isFam t) (errs st)"
proof -
  have "filter (isFam t) ds = []"
  proof (rule filter_False, rule ballI)
    fix e assume "e \<in> set ds"
    with assms(1) have "kind e \<in> set K" by (simp add: list_all_iff)
    then have "fst (kind e) \<in> fst ` set K" by (rule imageI)
    with assms(2) show "\<not> isFam t e" by (auto simp: isFam_kind)
  qed
  then show ?thesis by (simp add: push_def)
qed


lemmas frames =
  frame_push [OF checkIndentation_kind] frame_push [OF checkAssignmentOperator_kind]
  frame_push [OF checkIdentifiers_kind] frame_push [OF checkStructure_kind]
  family_frame [OF checkFirstWord_emits [OF subset_refl]]
  frame_push [OF checkKeywordCase_kind] frame_push [OF checkInvalidKeywords_kind]
  family_frame [OF checkDeclare_emits [OF subset_refl]]
  family_frame [OF checkConstant_emits [OF subset_refl]]
  frame_push [OF checkArrayFormat_kind] frame_push [OF checkFor_kind]
  frame_push [OF checkCaseOf_kind] frame_push [OF checkWhile_kind]
  frame_push [OF checkUnclosedString_kind] frame_push [OF checkCharLiterals_kind]
  frame_push [OF checkCharDeclaration_kind] frame_push [OF checkCharAssignment_kind]
  frame_push [OF checkArrayBounds_kind] frame_push [OF checkAssignmentTarget_kind]
  frame_push [OF checkVariableUsage_kind] frame_push [OF checkCall_kind]
  frame_push [OF checkOpenfile_kind] frame_push [OF checkEndfor_kind]
  family_frame [OF checkFunction_emits [OF subset_refl]]
  family_frame [OF checkProcedure_emits [of "[]"]]

lemma foldl_frame:
  assumes "\<forall>r \<in> set rs. \<forall>s. filter (isFam t) (errs (r s)) = filter (isFam t) (errs s)"
  shows "filter (isFam t) (errs (foldl (\<lambda>s r. r s) st rs)) = filter (isFam t) (errs st)"
  using assms by (induction rs rule: rev_induct) simp_all

lemma rules_split:
  assumes "k < length rs"
  shows "foldl (\<lambda>s r. r s) st rs
         = foldl (\<lambda>s r. r s) ((rs ! k) (foldl (\<lambda>s r. r s) st (take k rs))) (drop (Suc k) rs)"
proof -
  from assms have "rs = take k rs @ (rs ! k) # drop (Suc k) rs"
    by (simp add: id_take_nth_drop)
  then have "foldl (\<lambda>s r. r s) st rs = foldl (\<lambda>s r. r s) st (take k rs @ (rs ! k) # drop (Suc k) rs)"
    by simp
  then show ?thesis by simp
qed

lemma length_lineRules: "length (lineRules lines i ln) = 25"
  by (simp add: lineRules_def Let_def)

lemma lineRules_frames:
  assumes "t \<notin> set (map js [''Indenta'', ''Identif'', ''This li'', ''Unknown'', ''Unexpec'', ''Expecte'',
      ''Keyword'', ''DECLARE'', ''Variabl'', ''CONSTAN'', ''ARRAY d'', ''FOR loo'', ''CASE st'',
      ''WHILE c'', ''Unclose'', ''Empty C'', ''CHAR li'', ''CHAR va'', ''Array i'', ''CALL sh'',
      ''Invalid'', ''OPENFIL'', ''FUNCTIO''])"
    and "t \<noteq> sq" and "t \<noteq> js ''Use '' @ [arrow] @ js '' f''"
  shows "\<forall>r \<in> set (lineRules lines i ln). \<forall>s. filter (isFam t) (errs (r s)) = filter (isFam t) (errs s)"
  using assms by (simp add: lineRules_def Let_def frames)

lemma family_produced:
  assumes k: "k < length rs"
    and pre: "\<forall>r \<in> set (take k rs). \<forall>s. filter (isFam t) (errs (r s)) = filter (isFam t) (errs s)"
    and post: "\<forall>r \<in> set (drop (Suc k) rs). \<forall>s. filter (isFam t) (errs (r s)) = filter (isFam t) (errs s)"
    and prod: "\<And>s. filter (isFam t) (errs ((rs ! k) s)) = filter (isFam t) (errs s) @ X s"
  shows "filter (isFam t) (errs (foldl (\<lambda>s r. r s) st rs))
         = filter (isFam t) (errs st) @ X (foldl (\<lambda>s r. r s) st (take k rs))"
  by (simp add: rules_split [OF k, of st] foldl_frame [OF post] prod foldl_frame [OF pre])


lemma push_tables [simp]:
  "blockStack (push ds st) = blockStack st"
  "arrayDeclarations (push ds st) = arrayDeclarations st"
  by (simp_all add: push_def)

lemma processLine_skipped: "isSkipped ln \<Longrightarrow> processLine lines st (i, ln) = st"
  by (simp add: processLine_def)

lemma processLine_rules:
  "\<not> isSkipped ln \<Longrightarrow> processLine lines st (i, ln) = foldl (\<lambda>s r. r s) st (lineRules lines i ln)"
  by (simp add: processLine_def)





lemma lineRules_stack_before:
  "\<forall>r \<in> set (take 4 (lineRules lines i ln)). \<forall>s. blockStack (r s) = blockStack s"
  by (simp add: lineRules_def Let_def)

lemma lineRules_stack_after:
  "\<forall>r \<in> set (drop 5 (lineRules lines i ln)). \<forall>s. blockStack (r s) = blockStack s"
  by (simp add: lineRules_def Let_def checkDeclare_blockStack checkConstant_blockStack
      checkFunction_blockStack checkProcedure_blockStack)

lemma lineRules_first_word:
  "lineRules lines i ln ! 4 = checkFirstWord (i + 1) (firstWord ln # tl (splitSpaces (trim ln)))"
  using splitSpaces_firstWord [of ln] by (simp add: lineRules_def Let_def)

lemma processLine_blockStack:
  "blockStack (processLine lines st (i, ln)) =
     (if isSkipped ln then blockStack st
      else if isUpperWord (firstWord ln) \<and> map_of BLOCK_KEYWORDS (firstWord ln) \<noteq> None
      then blockStack st @ [(firstWord ln, i + 1)]
      else if isCloser (firstWord ln) then butlast (blockStack st)
      else blockStack st)"
proof (cases "isSkipped ln")
  case True
  then show ?thesis by (simp add: processLine_skipped)
next
  case False
  let ?rs = "lineRules lines i ln"
  let ?s = "foldl (\<lambda>s r. r s) st (take 4 ?rs)"
  have len: "4 < length ?rs" by (simp add: length_lineRules)
  have "blockStack (foldl (\<lambda>s r. r s) st ?rs) = blockStack ((?rs ! 4) ?s)"
    using table_frame [OF lineRules_stack_after, where st = "(?rs ! 4) ?s" and lines1 = lines and i1 = i and ln1 = ln]
    by (simp add: rules_split [OF len, of st])
  moreover have "blockStack ?s = blockStack st"
    by (rule table_frame [OF lineRules_stack_before])
  ultimately show ?thesis
    using False by (auto simp add: processLine_rules lineRules_first_word checkFirstWord_blockStack)
qed

lemma closer_rule_frames:
  assumes "t \<notin> set (map js [''Indenta'', ''Identif'', ''This li'',
      ''Keyword'', ''DECLARE'', ''Variabl'', ''CONSTAN'', ''ARRAY d'', ''FOR loo'', ''CASE st'',
      ''WHILE c'', ''Unclose'', ''Empty C'', ''CHAR li'', ''CHAR va'', ''Array i'', ''CALL sh'',
      ''Invalid'', ''OPENFIL'', ''FUNCTIO''])"
    and "t \<noteq> sq" and "t \<noteq> js ''Use '' @ [arrow] @ js '' f''"
  shows "\<forall>r \<in> set (take 4 (lineRules lines i ln)).
           \<forall>s. filter (isFam t) (errs (r s)) = filter (isFam t) (errs s)"
    and "\<forall>r \<in> set (drop (Suc 4) (lineRules lines i ln)).
           \<forall>s. filter (isFam t) (errs (r s)) = filter (isFam t) (errs s)"
  using assms by (simp_all add: lineRules_def Let_def frames)

lemma closer_tags:
  assumes "t = js ''Unexpec'' \<or> t = js ''Expecte''"
  shows "t \<notin> set (map js [''Indenta'', ''Identif'', ''This li'',
      ''Keyword'', ''DECLARE'', ''Variabl'', ''CONSTAN'', ''ARRAY d'', ''FOR loo'', ''CASE st'',
      ''WHILE c'', ''Unclose'', ''Empty C'', ''CHAR li'', ''CHAR va'', ''Array i'', ''CALL sh'',
      ''Invalid'', ''OPENFIL'', ''FUNCTIO''])"
    and "t \<noteq> sq" and "t \<noteq> js ''Use '' @ [arrow] @ js '' f''"
    and "\<not> isFam t (diag n (js ''Unknown keyword: '' @ w) Error)"
  using assms by (elim disjE; simp add: js_def sq_def arrow_def isFam_def fam_def diag_def)+

lemma processLine_closers:
  assumes "t = js ''Unexpec'' \<or> t = js ''Expecte''"
  shows "filter (isFam t) (errs (processLine lines st (i, ln)))
   = filter (isFam t) (errs st)
     @ (if \<not> isSkipped ln \<and> isCloser (firstWord ln)
        then filter (isFam t)
          (if blockStack st = [] then [unexpectedCloser (i + 1) (firstWord ln)]
           else if isMismatch (fst (last (blockStack st))) (firstWord ln)
           then [expectedCloser (i + 1) (fst (last (blockStack st))) (firstWord ln)] else [])
        else [])"
proof (cases "isSkipped ln")
  case True
  then show ?thesis by (simp add: processLine_skipped)
next
  case False
  let ?rs = "lineRules lines i ln"
  let ?s = "foldl (\<lambda>s r. r s) st (take 4 ?rs)"
  let ?X = "\<lambda>s. if isCloser (firstWord ln)
        then filter (isFam t)
          (if blockStack s = [] then [unexpectedCloser (i + 1) (firstWord ln)]
           else if isMismatch (fst (last (blockStack s))) (firstWord ln)
           then [expectedCloser (i + 1) (fst (last (blockStack s))) (firstWord ln)] else [])
        else []"
  note tags = closer_tags [OF assms]
  have "filter (isFam t) (errs (foldl (\<lambda>s r. r s) st ?rs)) = filter (isFam t) (errs st) @ ?X ?s"
  proof (rule family_produced)
    show "4 < length ?rs" by (simp add: length_lineRules)
    show "\<forall>r \<in> set (take 4 ?rs). \<forall>s. filter (isFam t) (errs (r s)) = filter (isFam t) (errs s)"
      by (rule closer_rule_frames [OF tags(1-3)])
    show "\<forall>r \<in> set (drop (Suc 4) ?rs). \<forall>s. filter (isFam t) (errs (r s)) = filter (isFam t) (errs s)"
      by (rule closer_rule_frames [OF tags(1-3)])
    show "filter (isFam t) (errs ((?rs ! 4) s)) = filter (isFam t) (errs s) @ ?X s" for s
      using tags(4) by (simp add: lineRules_first_word checkFirstWord_errs)
  qed
  moreover have "blockStack ?s = blockStack st"
    by (rule table_frame [OF lineRules_stack_before])
  ultimately show ?thesis using False by (simp add: processLine_rules)
qed

lemma other_tags:
  assumes "t = js ''Unmatch'' \<or> t = js ''Empty F'' \<or> t = js ''Extra E'' \<or> t = js ''LENGTH(''"
  shows "t \<notin> set (map js [''Indenta'', ''Identif'', ''This li'', ''Unknown'', ''Unexpec'', ''Expecte'',
      ''Keyword'', ''DECLARE'', ''Variabl'', ''CONSTAN'', ''ARRAY d'', ''FOR loo'', ''CASE st'',
      ''WHILE c'', ''Unclose'', ''Empty C'', ''CHAR li'', ''CHAR va'', ''Array i'', ''CALL sh'',
      ''Invalid'', ''OPENFIL'', ''FUNCTIO''])"
    and "t \<noteq> sq" and "t \<noteq> js ''Use '' @ [arrow] @ js '' f''"
  using assms by (elim disjE; simp add: js_def sq_def arrow_def)+

lemma processLine_other:
  assumes "t = js ''Unmatch'' \<or> t = js ''Empty F'' \<or> t = js ''Extra E'' \<or> t = js ''LENGTH(''"
  shows "filter (isFam t) (errs (processLine lines st (i, ln))) = filter (isFam t) (errs st)"
proof (cases "isSkipped ln")
  case True
  then show ?thesis by (simp add: processLine_skipped)
next
  case False
  have "\<forall>r \<in> set (lineRules lines i ln).
          \<forall>s. filter (isFam t) (errs (r s)) = filter (isFam t) (errs s)"
    by (rule lineRules_frames [OF other_tags [OF assms]])
  from foldl_frame [OF this] False show ?thesis by (simp add: processLine_rules)
qed

subsection \<open>The line pass, line by line\<close>

lemma stateBefore_0: "stateBefore lines 0 = initScan"
  by (simp add: stateBefore_def)

lemma stateBefore_Suc:
  assumes "i < length lines"
  shows "stateBefore lines (Suc i) = processLine lines (stateBefore lines i) (i, lines ! i)"
proof -
  from assms have "take (Suc i) (enumerate 0 lines) = take i (enumerate 0 lines) @ [(i, lines ! i)]"
    by (simp add: take_Suc_conv_app_nth nth_enumerate_eq)
  then show ?thesis by (simp add: stateBefore_def)
qed

lemma linePass_stateBefore: "linePass lines = stateBefore lines (length lines)"
  by (simp add: linePass_def stateBefore_def)

lemma family_pass:
  assumes step: "\<And>i st. i < length lines \<Longrightarrow>
      filter P (errs (processLine lines st (i, lines ! i))) = filter P (errs st) @ X i st"
    and "k \<le> length lines"
  shows "filter P (errs (stateBefore lines k)) = concat (map (\<lambda>i. X i (stateBefore lines i)) [0..<k])"
  using assms(2)
proof (induction k)
  case 0
  show ?case by (simp add: stateBefore_0 initScan_def)
next
  case (Suc k)
  then show ?case by (simp add: stateBefore_Suc step)
qed



subsection \<open>The sweeps\<close>

lemma unmatched_kind: "kind (unmatched b) = (js ''Unmatch'', Error)"
  by (simp add: unmatched_def kind_def fam_def diag_def js_def sq_def)

lemma closerFamilies_cases:
  assumes "map_of closerFamilies t = Some opener"
  shows "take 1 t = js ''E''"
proof -
  from map_of_SomeD [OF assms] have "(t, opener) \<in> set closerFamilies" .
  then show ?thesis by (auto simp: closerFamilies_def js_def)
qed

lemma checkExtraCloser_kind:
  "list_all (\<lambda>e. kind e \<in> set [(js ''Extra E'', Error)]) (checkExtraCloser lines il)"
proof (cases "map_of closerFamilies (trim (snd il))")
  case None
  then show ?thesis by (simp add: checkExtraCloser_def)
next
  case (Some opener)
  from closerFamilies_cases [OF this] obtain cs where "trim (snd il) = 69 # cs"
    by (cases "trim (snd il)") (auto simp: js_def)
  with Some show ?thesis
    by (simp add: checkExtraCloser_def Let_def kind_def fam_def diag_def js_def sq_def)
qed

lemma checkLength_kind:
  "list_all (\<lambda>e. kind e \<in> set [(js ''LENGTH('', Error)]) (checkLength types il)"
  by (simp add: checkLength_def checkLengthCall_def list_all_concat_map list_all_True
      kind_def fam_def diag_def js_def sq_def split: option.split)

lemma emptyLoop_kind: "kind (emptyLoop n) = (js ''Empty F'', Warning)"
  by (simp add: emptyLoop_def kind_def fam_def diag_def js_def sq_def)

lemma checkEmptyLoop_kind:
  "list_all (\<lambda>e. kind e \<in> set [(js ''Empty F'', Warning)]) (checkEmptyLoop lines il)"
  by (simp add: checkEmptyLoop_def emptyLoop_kind)

lemma filter_family_none:
  assumes "list_all (\<lambda>e. kind e \<in> set K) ds" and "t \<notin> fst ` set K"
  shows "filter (isFam t) ds = []"
proof (rule filter_False, rule ballI)
  fix e assume "e \<in> set ds"
  with assms(1) have "kind e \<in> set K" by (simp add: list_all_iff)
  then have "fst (kind e) \<in> fst ` set K" by (rule imageI)
  with assms(2) show "\<not> isFam t e" by (auto simp: isFam_kind)
qed

lemma filter_family_all:
  assumes "list_all (\<lambda>e. kind e \<in> set [(t, s)]) ds"
  shows "filter (isFam t) ds = ds"
  using assms by (auto simp: list_all_iff isFam_kind filter_id_conv)

lemma filter_family_concat_none:
  assumes "\<And>x. list_all (\<lambda>e. kind e \<in> set K) (f x)" and "t \<notin> fst ` set K"
  shows "filter (isFam t) (concat (map f xs)) = []"
  by (induction xs) (simp_all add: filter_family_none [OF assms(1) assms(2)])

lemma filter_family_concat_all:
  assumes "\<And>x. list_all (\<lambda>e. kind e \<in> set [(t, s)]) (f x)"
  shows "filter (isFam t) (concat (map f xs)) = concat (map f xs)"
  by (induction xs) (simp_all add: filter_family_all [OF assms])

lemma filter_unmatched_none:
  assumes "t \<noteq> js ''Unmatch''"
  shows "filter (isFam t) (map unmatched bs) = []"
  using assms by (induction bs) (simp_all add: isFam_kind unmatched_kind)

lemma filter_unmatched_all: "filter (isFam (js ''Unmatch'')) (map unmatched bs) = map unmatched bs"
  by (induction bs) (simp_all add: isFam_kind unmatched_kind)

lemma line_family_tags:
  assumes "t = js ''Keyword'' \<or> t = js ''Unclose'' \<or> t = js ''Array i'' \<or> t = js ''Unexpec''
           \<or> t = js ''Expecte''"
  shows "t \<noteq> js ''Unmatch''" and "t \<notin> fst ` set [(js ''Extra E'', Error)]"
    and "t \<notin> fst ` set [(js ''LENGTH('', Error)]" and "t \<notin> fst ` set [(js ''Empty F'', Warning)]"
  using assms by (elim disjE; simp add: js_def)+

lemma allErrors_line_family:
  assumes "t = js ''Keyword'' \<or> t = js ''Unclose'' \<or> t = js ''Array i'' \<or> t = js ''Unexpec''
           \<or> t = js ''Expecte''"
  shows "filter (isFam t) (allErrors lines) = filter (isFam t) (errs (linePass lines))"
  using line_family_tags [OF assms]
  by (simp add: allErrors_def Let_def filter_unmatched_none
      filter_family_concat_none [OF checkExtraCloser_kind]
      filter_family_concat_none [OF checkLength_kind]
      filter_family_concat_none [OF checkEmptyLoop_kind])

lemma linePass_other:
  assumes "t = js ''Unmatch'' \<or> t = js ''Empty F'' \<or> t = js ''Extra E'' \<or> t = js ''LENGTH(''"
  shows "filter (isFam t) (errs (linePass lines)) = []"
proof -
  have "filter (isFam t) (errs (stateBefore lines (length lines)))
        = concat (map (\<lambda>i. (\<lambda>i st. []) i (stateBefore lines i)) [0..<length lines])"
    by (rule family_pass) (simp_all add: processLine_other [OF assms])
  then show ?thesis by (simp add: linePass_stateBefore)
qed

lemma sweep_tags:
  "js ''Unmatch'' \<notin> fst ` set [(js ''Extra E'', Error)]"
  "js ''Unmatch'' \<notin> fst ` set [(js ''LENGTH('', Error)]"
  "js ''Unmatch'' \<notin> fst ` set [(js ''Empty F'', Warning)]"
  "js ''Empty F'' \<notin> fst ` set [(js ''Extra E'', Error)]"
  "js ''Empty F'' \<notin> fst ` set [(js ''LENGTH('', Error)]"
  "js ''Empty F'' \<noteq> js ''Unmatch''"
  by (simp_all add: js_def)

lemma allErrors_Unmatch:
  "filter (isFam (js ''Unmatch'')) (allErrors lines) = map unmatched (blockStack (linePass lines))"
  by (simp add: allErrors_def Let_def linePass_other filter_unmatched_all
      filter_family_concat_none [OF checkExtraCloser_kind sweep_tags(1)]
      filter_family_concat_none [OF checkLength_kind sweep_tags(2)]
      filter_family_concat_none [OF checkEmptyLoop_kind sweep_tags(3)])

lemma allErrors_EmptyF:
  "filter (isFam (js ''Empty F'')) (allErrors lines)
   = concat (map (checkEmptyLoop lines) (enumerate 0 lines))"
  by (simp add: allErrors_def Let_def linePass_other filter_unmatched_none [OF sweep_tags(6)]
      filter_family_concat_none [OF checkExtraCloser_kind sweep_tags(4)]
      filter_family_concat_none [OF checkLength_kind sweep_tags(5)]
      filter_family_concat_all [OF checkEmptyLoop_kind])

subsection \<open>From the collected diagnostics to the result\<close>

lemma deduplicateAux_mate:
  "e \<in> set es \<Longrightarrow> errorKey e \<notin> K \<Longrightarrow> \<exists>e' \<in> set (deduplicateAux K es). errorKey e' = errorKey e"
proof (induction es arbitrary: K)
  case Nil
  then show ?case by simp
next
  case (Cons x xs)
  show ?case
  proof (cases "errorKey x = errorKey e")
    case True
    with Cons.prems show ?thesis by auto
  next
    case False
    with Cons.prems have e: "e \<in> set xs" by auto
    show ?thesis
    proof (cases "errorKey x \<in> K")
      case True
      with Cons.IH [OF e Cons.prems(2)] show ?thesis by simp
    next
      case notin: False
      from False Cons.prems(2) have "errorKey e \<notin> insert (errorKey x) K" by auto
      from Cons.IH [OF e this] notin show ?thesis by auto
    qed
  qed
qed

lemma SyntaxError_eqI:
  fixes e e' :: SyntaxError
  assumes "line e = line e'" and "message e = message e'" and "type e = type e'"
  shows "e = e'"
  using assms by (cases e, cases e') simp

lemma deduplicate_member:
  assumes "e \<in> set es"
    and "\<forall>e' \<in> set es. message e' = message e \<longrightarrow> type e' = type e"
  shows "e \<in> set (deduplicate es)"
proof -
  from deduplicateAux_mate [OF assms(1), of "{}"]
  obtain e' where e': "e' \<in> set (deduplicate es)" "errorKey e' = errorKey e"
    by (auto simp: deduplicate_def)
  from e'(1) have "e' \<in> set es"
    using deduplicateAux_subset [of "{}" es] by (auto simp: deduplicate_def)
  moreover from e'(2) have "line e' = line e" "message e' = message e"
    by (simp_all add: errorKey_eq_iff)
  ultimately have "e' = e" using assms(2) by (intro SyntaxError_eqI) auto
  with e'(1) show ?thesis by simp
qed

lemma deduplicateAux_insert:
  "k \<notin> errorKey ` set es \<Longrightarrow> deduplicateAux (insert k K) es = deduplicateAux K es"
proof (induction es arbitrary: K)
  case Nil
  show ?case by simp
next
  case (Cons x xs)
  then have "k \<noteq> errorKey x" and "k \<notin> errorKey ` set xs" by auto
  with Cons.IH [of K] Cons.IH [of "insert (errorKey x) K"] show ?case
    by (simp add: insert_commute)
qed

lemma filter_deduplicateAux:
  assumes "\<And>e e'. errorKey e = errorKey e' \<Longrightarrow> P e = P e'"
  shows "filter P (deduplicateAux K es) = deduplicateAux K (filter P es)"
proof (induction es arbitrary: K)
  case Nil
  show ?case by simp
next
  case (Cons x xs)
  show ?case
  proof (cases "P x")
    case True
    with Cons.IH show ?thesis by simp
  next
    case False
    have "errorKey x \<notin> errorKey ` set (filter P xs)"
    proof
      assume "errorKey x \<in> errorKey ` set (filter P xs)"
      then obtain y where "P y" "errorKey x = errorKey y" by auto
      with assms [of x y] False show False by simp
    qed
    from deduplicateAux_insert [OF this] False Cons.IH show ?thesis by simp
  qed
qed

lemma filter_family_deduplicate:
  "filter (isFam t) (deduplicate es) = deduplicate (filter (isFam t) es)"
  unfolding deduplicate_def
  by (rule filter_deduplicateAux) (simp add: errorKey_eq_iff isFam_def)

lemma filter_line_deduplicate:
  "filter (\<lambda>e. line e = n) (deduplicate es) = deduplicate (filter (\<lambda>e. line e = n) es)"
  unfolding deduplicate_def
  by (rule filter_deduplicateAux) (simp add: errorKey_eq_iff)

lemma checkSyntax_errors:
  "hasActualCode (splitOn 10 code) \<Longrightarrow> errors (checkSyntax code) = deduplicate (allErrors (splitOn 10 code))"
  by (simp add: checkSyntax_def Let_def)

lemma not_skipped_hasActualCode:
  "i < length lines \<Longrightarrow> \<not> isSkipped (lines ! i) \<Longrightarrow> hasActualCode lines"
  by (auto simp: hasActualCode_def isSkipped_def list_ex_iff)

lemma family_result_member:
  assumes "hasActualCode (splitOn 10 code)"
    and "e \<in> set (filter (isFam t) (allErrors (splitOn 10 code)))"
    and "\<forall>e' \<in> set (filter (isFam t) (allErrors (splitOn 10 code))). type e' = type e"
  shows "e \<in> set (errors (checkSyntax code))"
proof -
  let ?es = "allErrors (splitOn 10 code)"
  from assms(2) have t: "isFam t e" and e: "e \<in> set ?es" by simp_all
  have "\<forall>e' \<in> set ?es. message e' = message e \<longrightarrow> type e' = type e"
  proof (intro ballI impI)
    fix e' assume "e' \<in> set ?es" and "message e' = message e"
    with t have "e' \<in> set (filter (isFam t) ?es)" by (simp add: isFam_def)
    with assms(3) show "type e' = type e" by blast
  qed
  from deduplicate_member [OF e this] assms(1) show ?thesis
    by (simp add: checkSyntax_errors)
qed

lemma family_result_origin:
  assumes "hasActualCode (splitOn 10 code)" and "e \<in> set (errors (checkSyntax code))" and "isFam t e"
  shows "e \<in> set (filter (isFam t) (allErrors (splitOn 10 code)))"
  using assms deduplicateAux_subset [of "{}" "allErrors (splitOn 10 code)"]
  by (auto simp: checkSyntax_errors deduplicate_def)

subsection \<open>Keyword casing\<close>





subsection \<open>Unclosed strings\<close>





subsection \<open>Empty loops\<close>

lemma findNext_ge: "findNext k ls = Some j \<Longrightarrow> k \<le> j"
proof (induction ls arbitrary: k)
  case Nil
  then show ?case by simp
next
  case (Cons l ls)
  then show ?case by (fastforce split: if_splits dest: Suc_leD)
qed

lemma findNext_here:
  "findNext k ls = Some k \<longleftrightarrow> (\<exists>l rest. ls = l # rest \<and> startsWith (trim l) (js ''NEXT ''))"
proof (cases ls)
  case Nil
  then show ?thesis by simp
next
  case (Cons l rest)
  have "findNext (Suc k) rest \<noteq> Some k"
    using findNext_ge [of "Suc k" rest k] by auto
  with Cons show ?thesis by simp
qed

lemma findNext_next_line:
  "findNext (Suc i) (drop (Suc i) lines) = Some (Suc i)
   \<longleftrightarrow> Suc i < length lines \<and> startsWith (trim (lines ! Suc i)) (js ''NEXT '')"
proof (cases "Suc i < length lines")
  case True
  then have d: "drop (Suc i) lines = lines ! Suc i # drop (Suc (Suc i)) lines"
    by (simp add: Cons_nth_drop_Suc)
  show ?thesis by (subst findNext_here) (simp add: d True)
next
  case False
  show ?thesis by (subst findNext_here) (use False in simp)
qed

lemma checkEmptyLoop_eq:
  "checkEmptyLoop lines (i, ln) =
     (if startsWith (trim ln) (js ''FOR '') \<and> includesStr (trim ln) (js '' TO '')
         \<and> Suc i < length lines \<and> startsWith (trim (lines ! Suc i)) (js ''NEXT '')
      then [emptyLoop (i + 1)] else [])"
  using findNext_next_line [of i lines] by (simp add: checkEmptyLoop_def)

lemma emptyLoop_line: "line (emptyLoop n) = n" and emptyLoop_type: "type (emptyLoop n) = Warning"
  by (simp_all add: emptyLoop_def diag_def)

lemma concat_enumerate_member:
  "e \<in> set (concat (map f (enumerate 0 lines))) \<longleftrightarrow> (\<exists>i < length lines. e \<in> set (f (i, lines ! i)))"
proof -
  have "set (enumerate 0 lines) = {(i, lines ! i) | i. i < length lines}"
    by (auto simp: in_set_enumerate_eq)
  then show ?thesis by auto
qed

lemma for_line_not_skipped: "startsWith (trim ln) (js ''FOR '') \<Longrightarrow> \<not> isSkipped ln"
  by (cases "trim ln") (auto simp: isSkipped_def js_def)

lemma empty_loop_general:
  assumes "i < length (splitOn 10 code)"
    and "startsWith (trim (splitOn 10 code ! i)) (js ''FOR '')"
    and "includesStr (trim (splitOn 10 code ! i)) (js '' TO '')"
  shows "emptyLoop (i + 1) \<in> set (errors (checkSyntax code))
         \<longleftrightarrow> Suc i < length (splitOn 10 code)
             \<and> startsWith (trim (splitOn 10 code ! Suc i)) (js ''NEXT '')"
proof -
  let ?lines = "splitOn 10 code"
  let ?F = "filter (isFam (js ''Empty F'')) (allErrors ?lines)"
  have code: "hasActualCode ?lines"
    using not_skipped_hasActualCode [OF assms(1) for_line_not_skipped [OF assms(2)]] .
  have fam: "isFam (js ''Empty F'') (emptyLoop (i + 1))"
    by (simp add: isFam_kind emptyLoop_kind)
  have mem: "e \<in> set ?F \<longleftrightarrow> (\<exists>j < length ?lines. e \<in> set (checkEmptyLoop ?lines (j, ?lines ! j)))"
    for e
    unfolding allErrors_EmptyF by (rule concat_enumerate_member)
  have types: "\<forall>e \<in> set ?F. type e = type (emptyLoop (i + 1))"
  proof
    fix e assume "e \<in> set ?F"
    with mem obtain j where "e \<in> set (checkEmptyLoop ?lines (j, ?lines ! j))" by blast
    with checkEmptyLoop_kind [of ?lines "(j, ?lines ! j)"]
    show "type e = type (emptyLoop (i + 1))"
      by (auto simp: list_all_iff kind_def emptyLoop_type)
  qed
  show ?thesis
  proof
    assume "emptyLoop (i + 1) \<in> set (errors (checkSyntax code))"
    from family_result_origin [OF code this fam] mem
    obtain j where j: "j < length ?lines"
      "emptyLoop (i + 1) \<in> set (checkEmptyLoop ?lines (j, ?lines ! j))" by blast
    from j(2) have "checkEmptyLoop ?lines (j, ?lines ! j) = [emptyLoop (j + 1)]"
      by (cases "checkEmptyLoop ?lines (j, ?lines ! j) = []") (auto simp: checkEmptyLoop_eq split: if_splits)
    with j(2) have "emptyLoop (i + 1) = emptyLoop (j + 1)" by simp
    then have "line (emptyLoop (i + 1)) = line (emptyLoop (j + 1))" by simp
    then have "j = i" by (simp add: emptyLoop_line)
    with j(2) show "Suc i < length ?lines \<and> startsWith (trim (?lines ! Suc i)) (js ''NEXT '')"
      by (cases "Suc i < length ?lines \<and> startsWith (trim (?lines ! Suc i)) (js ''NEXT '')")
        (simp_all add: checkEmptyLoop_eq)
  next
    assume "Suc i < length ?lines \<and> startsWith (trim (?lines ! Suc i)) (js ''NEXT '')"
    with assms have "checkEmptyLoop ?lines (i, ?lines ! i) = [emptyLoop (i + 1)]"
      by (simp add: checkEmptyLoop_eq)
    with assms(1) mem have "emptyLoop (i + 1) \<in> set ?F" by force
    from family_result_member [OF code this types] show "emptyLoop (i + 1) \<in> set (errors (checkSyntax code))" .
  qed
qed

subsection \<open>Array bounds\<close>














subsection \<open>The block stack\<close>

lemma stateBefore_blockStack:
  assumes "i < length lines"
  shows "blockStack (stateBefore lines (Suc i)) =
     (if isSkipped (lines ! i) then blockStack (stateBefore lines i)
      else if isUpperWord (firstWord (lines ! i)) \<and> map_of BLOCK_KEYWORDS (firstWord (lines ! i)) \<noteq> None
      then blockStack (stateBefore lines i) @ [(firstWord (lines ! i), i + 1)]
      else if isCloser (firstWord (lines ! i)) then butlast (blockStack (stateBefore lines i))
      else blockStack (stateBefore lines i))"
  by (simp only: stateBefore_Suc [OF assms] processLine_blockStack)

lemma sorted_wrt_butlast: "sorted_wrt P xs \<Longrightarrow> sorted_wrt P (butlast xs)"
  by (induction xs rule: rev_induct) (auto simp: sorted_wrt_append)

lemma blockStack_lines:
  assumes "k \<le> length lines"
  shows "sorted_wrt (<) (map snd (blockStack (stateBefore lines k)))
         \<and> (\<forall>b \<in> set (blockStack (stateBefore lines k)). snd b \<le> k)"
  using assms
proof (induction k)
  case 0
  show ?case by (simp add: stateBefore_0 initScan_def)
next
  case (Suc k)
  then have k: "k < length lines"
    and s: "sorted_wrt (<) (map snd (blockStack (stateBefore lines k)))"
    and b: "\<forall>b \<in> set (blockStack (stateBefore lines k)). snd b \<le> k"
    by simp_all
  let ?st = "blockStack (stateBefore lines k)"
  have bl: "\<forall>b \<in> set (butlast ?st). snd b \<le> k"
    using b by (auto dest: in_set_butlastD)
  have sl: "sorted_wrt (<) (map snd (butlast ?st))"
    using sorted_wrt_butlast [OF s] by (simp add: map_butlast)
  have sa: "sorted_wrt (<) (map snd (?st @ [(w, k + 1)]))" for w
    using s b by (auto simp: sorted_wrt_append)
  show ?case
    unfolding stateBefore_blockStack [OF k]
    using s b bl sl sa by (auto simp: less_Suc_eq_le le_SucI)
qed

lemma unmatched_line: "line (unmatched b) = snd b"
  by (simp add: unmatched_def diag_def)

lemma unmatched_deduplicated:
  assumes "distinct (map snd bs)"
  shows "deduplicate (map unmatched bs) = map unmatched bs"
proof -
  have "inj_on (\<lambda>b. errorKey (unmatched b)) (set bs)"
  proof (rule inj_onI)
    fix b b' assume "b \<in> set bs" "b' \<in> set bs" "errorKey (unmatched b) = errorKey (unmatched b')"
    then have "snd b = snd b'" by (simp add: errorKey_eq_iff unmatched_line)
    with assms \<open>b \<in> set bs\<close> \<open>b' \<in> set bs\<close> show "b = b'"
      by (meson distinct_map inj_onD)
  qed
  moreover from assms have "distinct bs" by (simp add: distinct_map)
  ultimately have "distinct (map errorKey (map unmatched bs))"
    by (simp add: distinct_map comp_def)
  then show ?thesis
    unfolding deduplicate_def by (intro deduplicateAux_fixed) simp_all
qed

lemma result_Unmatch:
  assumes "hasActualCode (splitOn 10 code)"
  shows "filter (isFam (js ''Unmatch'')) (errors (checkSyntax code))
         = map unmatched (blockStack (linePass (splitOn 10 code)))"
proof -
  let ?lines = "splitOn 10 code"
  from blockStack_lines [of "length ?lines" ?lines]
  have "sorted_wrt (<) (map snd (blockStack (linePass ?lines)))"
    by (simp add: linePass_stateBefore)
  then have "distinct (map snd (blockStack (linePass ?lines)))"
    by (simp add: strict_sorted_iff)
  from unmatched_deduplicated [OF this] assms show ?thesis
    by (simp add: checkSyntax_errors filter_family_deduplicate allErrors_Unmatch)
qed

lemma filter_line_concat:
  assumes "i < n" and "\<And>j e. e \<in> set (Y j) \<Longrightarrow> line e = j + 1"
  shows "filter (\<lambda>e. line e = i + 1) (concat (map Y [0..<n])) = Y i"
  using assms(1)
proof (induction n)
  case 0
  then show ?case by simp
next
  case (Suc n)
  have here: "filter (\<lambda>e. line e = i + 1) (Y i) = Y i"
    using assms(2) [of _ i] by (simp add: filter_id_conv)
  have other: "filter (\<lambda>e. line e = i + 1) (Y j) = []" if "j \<noteq> i" for j
    using assms(2) [of _ j] that by (auto simp: filter_empty_conv)
  show ?case
  proof (cases "i = n")
    case True
    have "filter (\<lambda>e. line e = i + 1) (concat (map Y [0..<n])) = []"
      using True by (auto simp: filter_empty_conv dest!: assms(2))
    with True here show ?thesis by simp
  next
    case False
    with Suc have "filter (\<lambda>e. line e = i + 1) (concat (map Y [0..<n])) = Y i" by simp
    with other [of n] False show ?thesis by simp
  qed
qed

lemma deduplicate_single: "deduplicate [e] = [e]" and deduplicate_Nil: "deduplicate [] = []"
  by (simp_all add: deduplicate_def)

lemma closer_fields:
  "line (unexpectedCloser n w) = n" "line (expectedCloser n k w) = n"
  by (simp_all add: unexpectedCloser_def expectedCloser_def diag_def)

lemma closer_family:
  "isFam (js ''Unexpec'') (unexpectedCloser n w)" "\<not> isFam (js ''Unexpec'') (expectedCloser n k w)"
  "isFam (js ''Expecte'') (expectedCloser n k w)" "\<not> isFam (js ''Expecte'') (unexpectedCloser n w)"
  by (simp_all add: isFam_kind unexpectedCloser_kind expectedCloser_kind js_def)

lemma result_closers:
  assumes t: "t = js ''Unexpec'' \<or> t = js ''Expecte''"
    and code: "hasActualCode (splitOn 10 code)" and i: "i < length (splitOn 10 code)"
  shows "filter (\<lambda>e. line e = i + 1) (filter (isFam t) (errors (checkSyntax code)))
         = (if \<not> isSkipped (splitOn 10 code ! i) \<and> isCloser (firstWord (splitOn 10 code ! i))
            then filter (isFam t)
              (if blockStack (stateBefore (splitOn 10 code) i) = []
               then [unexpectedCloser (i + 1) (firstWord (splitOn 10 code ! i))]
               else if isMismatch (fst (last (blockStack (stateBefore (splitOn 10 code) i))))
                         (firstWord (splitOn 10 code ! i))
               then [expectedCloser (i + 1) (fst (last (blockStack (stateBefore (splitOn 10 code) i))))
                       (firstWord (splitOn 10 code ! i))]
               else [])
            else [])"
proof -
  let ?lines = "splitOn 10 code"
  let ?X = "\<lambda>i st. if \<not> isSkipped (?lines ! i) \<and> isCloser (firstWord (?lines ! i))
        then filter (isFam t)
          (if blockStack st = [] then [unexpectedCloser (i + 1) (firstWord (?lines ! i))]
           else if isMismatch (fst (last (blockStack st))) (firstWord (?lines ! i))
           then [expectedCloser (i + 1) (fst (last (blockStack st))) (firstWord (?lines ! i))] else [])
        else []"
  let ?Y = "\<lambda>j. ?X j (stateBefore ?lines j)"
  have t': "t = js ''Keyword'' \<or> t = js ''Unclose'' \<or> t = js ''Array i'' \<or> t = js ''Unexpec''
           \<or> t = js ''Expecte''"
    using t by blast
  have all: "filter (isFam t) (allErrors ?lines) = concat (map ?Y [0..<length ?lines])"
    unfolding allErrors_line_family [OF t'] linePass_stateBefore
    by (rule family_pass) (simp_all add: processLine_closers [OF t])
  have lines: "line e = j + 1" if "e \<in> set (?Y j)" for j e
    using that by (auto simp: closer_fields split: if_splits)
  have "filter (\<lambda>e. line e = i + 1) (filter (isFam t) (errors (checkSyntax code)))
        = deduplicate (filter (\<lambda>e. line e = i + 1) (filter (isFam t) (allErrors ?lines)))"
    by (simp only: checkSyntax_errors [OF code] filter_family_deduplicate filter_line_deduplicate)
  also have "filter (\<lambda>e. line e = i + 1) (filter (isFam t) (allErrors ?lines)) = ?Y i"
    unfolding all by (rule filter_line_concat [OF i lines])
  also have "deduplicate (?Y i) = ?Y i"
    by (simp add: deduplicate_single deduplicate_Nil)
  finally show ?thesis .
qed

subsection \<open>The array table\<close>








subsection \<open>Inputs without content\<close>

lemma stateBefore_all_skipped:
  assumes "\<not> hasActualCode lines" and "k \<le> length lines"
  shows "stateBefore lines k = initScan"
  using assms(2)
proof (induction k)
  case 0
  show ?case by (rule stateBefore_0)
next
  case (Suc k)
  then have k: "k < length lines" by simp
  with assms(1) have "isSkipped (lines ! k)"
    by (auto simp: hasActualCode_def isSkipped_def list_ex_iff)
  with Suc k show ?case by (simp add: stateBefore_Suc processLine_skipped)
qed

lemma result_Unmatch_always:
  "filter (isFam (js ''Unmatch'')) (errors (checkSyntax code))
   = map unmatched (blockStack (linePass (splitOn 10 code)))"
proof (cases "hasActualCode (splitOn 10 code)")
  case True
  then show ?thesis by (rule result_Unmatch)
next
  case False
  then have "linePass (splitOn 10 code) = initScan"
    unfolding linePass_stateBefore by (rule stateBefore_all_skipped) simp
  moreover have "\<not> isFam (js ''Unmatch'') noContent"
    by (simp add: isFam_def fam_def noContent_def diag_def js_def sq_def)
  ultimately show ?thesis using False by (simp add: checkSyntax_def initScan_def)
qed

subsection \<open>Evaluation on concrete inputs\<close>

lemmas eval_defs =
  js_def arrow_def isSpace_def isLineTerminator_def isDigit_def isUpper_def isLower_def 
  isAlpha_def isWord_def isIdStart_def toUpperCase_def toLowerCase_def trimStart_def trim_def 
  splitOn_def splitSpaces_def wordRuns_def lit_def litI_def chr_def spaces0_def run1_def 
  spaces1_def ident_def matchAll_def isIdentifier_def isLetterIdentifier_def startsWithDigit_def 
  isUpperWord_def isUpperIdentifier_def identifierMatches_def variableMatches_def 
  isInConditional_def assignPattern_def removeQuoted_def quotedContents_def arrayDeclAt_def 
  constantAt_def declareCharAt_def assignStringAt_def arrayAccessAt_def arrayAccessMatches_def 
  arrayAccessMatch_def assignmentTarget_def keywordNameAt_def openfileAt_def paramsAt_def 
  lengthCallAt_def lengthMatches_def lengthMatch_def diag_def initScan_def push_def KEYWORDS_def 
  BLOCK_KEYWORDS_def closingKeywords_def closerOf_def sq_def checkIndentation_def 
  checkAssignmentOperator_def checkIdentifiers_def hasValidStructure_def checkStructure_def 
  isCloser_def unexpectedCloser_def isMismatch_def expectedCloser_def closeBlock_def 
  checkFirstWord_def stripLiterals_def keywordCase_def checkKeywordCase_def invalidKeywords_def 
  checkInvalidKeywords_def declareVariable_def registerArray_def checkDeclare_def 
  checkConstant_def checkArrayFormat_def checkFor_def checkCaseOf_def checkWhile_def 
  hasUnclosedString_def unclosedString_def checkUnclosedString_def checkCharLiterals_def 
  checkCharDeclaration_def checkCharAssignment_def outOfBounds_def checkAccess_def 
  checkArrayBounds_def undeclared_def checkAssignmentTarget_def checkVariableUsage_def 
  checkCall_def checkOpenfile_def findIndexAfter_def checkEndfor_def declareParam_def 
  declareParams_def checkFunction_def checkProcedure_def isSkipped_def lineRules_def 
  processLine_def linePass_def unmatched_def closerFamilies_def checkExtraCloser_def 
  checkLengthCall_def checkLength_def emptyLoop_def checkEmptyLoop_def errorKey_def 
  deduplicate_def hasActualCode_def noContent_def allErrors_def checkSyntax_def 
  Let_def showNat.simps



lemma example_valid:
  "checkSyntax (js ''DECLARE x: INTEGER'' @ [10] @ js ''x '' @ [arrow] @ js '' 5'' @ [10] @ js ''OUTPUT x'')
   = \<lparr>isValid = True, errors = []\<rparr>"
  by (simp add: eval_defs)


lemma blank_body:
  "checkSyntax (js ''FOR i '' @ [arrow] @ js '' 1 TO 3'' @ [10, 10] @ js ''NEXT i'')
   = \<lparr>isValid = True, errors = []\<rparr>"
  by (simp add: eval_defs)



section \<open>The properties of the checker\<close>

text \<open>
  In the statements below, \<open>splitOn 10 code\<close> is the list \<^verbatim>\<open>lines\<close> of the source,
  a line is \<^emph>\<open>checked\<close> when it is neither blank nor a comment (\<open>\<not> isSkipped\<close>: the first
  statement of the loop body returns on the others), \<open>stateBefore lines i\<close> is the state of
  the line pass when it reaches the line of index \<open>i\<close> (line number \<open>i + 1\<close>), and
  \<open>isFam t\<close> selects the diagnostics whose message starts with the seven characters \<open>t\<close>.
\<close>

text \<open>
  C1. For every input, \<open>isValid\<close> holds if and only if the returned diagnostics hold no
  entry of severity error; warnings play no part in it.
\<close>

theorem checkSyntax_isValid_iff:
  "isValid (checkSyntax code) \<longleftrightarrow> filter (\<lambda>e. type e = Error) (errors (checkSyntax code)) = []"
  by (simp add: checkSyntax_def Let_def noContent_def diag_def)

theorem checkSyntax_isValid_iff_witness:
  "\<not> isValid (checkSyntax [])"
proof -
  have "filter (\<lambda>e. type e = Error) (errors (checkSyntax [])) \<noteq> []"
    by (simp add: checkSyntax_def splitOn_def hasActualCode_def trim_def noContent_def diag_def)
  with checkSyntax_isValid_iff [of "[]"] show ?thesis by blast
qed

text \<open>
  C2. When every line of the input is blank or a comment, the result is invalid and its
  only diagnostic is the one for missing content: nothing else is run.
\<close>

theorem checkSyntax_no_content:
  assumes "\<forall>ln \<in> set (splitOn 10 code). trim ln = [] \<or> startsWith (trim ln) (js ''//'')"
  shows "checkSyntax code = \<lparr>isValid = False, errors = [noContent]\<rparr>"
  using assms by (auto simp add: checkSyntax_def hasActualCode_def list_ex_iff)

theorem checkSyntax_no_content_witness:
  "checkSyntax (js ''// note'' @ [10] @ js ''  '') = \<lparr>isValid = False, errors = [noContent]\<rparr>"
  by (rule checkSyntax_no_content) (simp add: splitOn_def trim_def js_def isSpace_def)

text \<open>
  C3. Block matching is a stack discipline. (i) A checked line whose first word is a
  closing keyword (NEXT and UNTIL among them), reached with an empty block stack, has
  exactly one diagnostic of the unexpected-closer family in the result, the one naming
  that word. (ii) The diagnostics of the unmatched-opener family in the result are those of
  the entries left on the block stack after the line pass, one for each entry and in
  stack order, so that their number is the number of entries left. (iii) NEXT closing a FOR
  and UNTIL closing a REPEAT pop the block and leave no mismatch diagnostic on their line.
\<close>

theorem block_stack_discipline:
  "(\<forall>i < length (splitOn 10 code).
      \<not> isSkipped (splitOn 10 code ! i) \<and> isCloser (firstWord (splitOn 10 code ! i))
      \<and> blockStack (stateBefore (splitOn 10 code) i) = []
      \<longrightarrow> filter (\<lambda>e. line e = i + 1) (filter (isFam (js ''Unexpec'')) (errors (checkSyntax code)))
          = [unexpectedCloser (i + 1) (firstWord (splitOn 10 code ! i))])
   \<and> filter (isFam (js ''Unmatch'')) (errors (checkSyntax code))
       = map unmatched (blockStack (linePass (splitOn 10 code)))
   \<and> (\<forall>i < length (splitOn 10 code).
        \<not> isSkipped (splitOn 10 code ! i) \<and> blockStack (stateBefore (splitOn 10 code) i) \<noteq> []
        \<and> (fst (last (blockStack (stateBefore (splitOn 10 code) i))) = js ''FOR''
             \<and> firstWord (splitOn 10 code ! i) = js ''NEXT''
           \<or> fst (last (blockStack (stateBefore (splitOn 10 code) i))) = js ''REPEAT''
             \<and> firstWord (splitOn 10 code ! i) = js ''UNTIL'')
        \<longrightarrow> filter (\<lambda>e. line e = i + 1) (filter (isFam (js ''Expecte'')) (errors (checkSyntax code))) = []
          \<and> blockStack (stateBefore (splitOn 10 code) (Suc i))
              = butlast (blockStack (stateBefore (splitOn 10 code) i)))"
proof (intro conjI allI impI)
  let ?lines = "splitOn 10 code"
  show "filter (isFam (js ''Unmatch'')) (errors (checkSyntax code))
        = map unmatched (blockStack (linePass ?lines))"
    by (rule result_Unmatch_always)
  {
    fix i
    assume i: "i < length ?lines"
      and h: "\<not> isSkipped (?lines ! i) \<and> isCloser (firstWord (?lines ! i))
              \<and> blockStack (stateBefore ?lines i) = []"
    from h i have code: "hasActualCode ?lines" by (auto intro: not_skipped_hasActualCode)
    from result_closers [OF disjI1 [OF refl] code i] h
    show "filter (\<lambda>e. line e = i + 1) (filter (isFam (js ''Unexpec'')) (errors (checkSyntax code)))
          = [unexpectedCloser (i + 1) (firstWord (?lines ! i))]"
      by (simp add: closer_family)
  }
  {
    fix i
    assume i: "i < length ?lines"
      and h: "\<not> isSkipped (?lines ! i) \<and> blockStack (stateBefore ?lines i) \<noteq> []
        \<and> (fst (last (blockStack (stateBefore ?lines i))) = js ''FOR''
             \<and> firstWord (?lines ! i) = js ''NEXT''
           \<or> fst (last (blockStack (stateBefore ?lines i))) = js ''REPEAT''
             \<and> firstWord (?lines ! i) = js ''UNTIL'')"
    from h i have code: "hasActualCode ?lines" by (auto intro: not_skipped_hasActualCode)
    from h have closer: "isCloser (firstWord (?lines ! i))"
      by (auto simp: isCloser_def)
    from h have ok: "\<not> isMismatch (fst (last (blockStack (stateBefore ?lines i)))) (firstWord (?lines ! i))"
      by (auto simp: isMismatch_def)
    from result_closers [OF disjI2 [OF refl] code i] h closer ok
    show "filter (\<lambda>e. line e = i + 1) (filter (isFam (js ''Expecte'')) (errors (checkSyntax code))) = []"
      by simp
    from closer_facts(2) [OF closer] closer h
    show "blockStack (stateBefore ?lines (Suc i)) = butlast (blockStack (stateBefore ?lines i))"
      by (simp add: stateBefore_blockStack [OF i])
  }
qed

theorem block_stack_discipline_witness:
  "filter (\<lambda>e. line e = 3) (filter (isFam (js ''Unexpec''))
      (errors (checkSyntax (js ''FOR i '' @ [arrow] @ js '' 1 TO 2'' @ [10] @ js ''NEXT i'' @ [10]
         @ js ''NEXT i'' @ [10] @ js ''IF x''))))
     = [unexpectedCloser 3 (js ''NEXT'')]
   \<and> filter (isFam (js ''Unmatch''))
      (errors (checkSyntax (js ''FOR i '' @ [arrow] @ js '' 1 TO 2'' @ [10] @ js ''NEXT i'' @ [10]
         @ js ''NEXT i'' @ [10] @ js ''IF x'')))
     = [unmatched (js ''IF'', 4)]
   \<and> filter (\<lambda>e. line e = 2) (filter (isFam (js ''Expecte''))
      (errors (checkSyntax (js ''FOR i '' @ [arrow] @ js '' 1 TO 2'' @ [10] @ js ''NEXT i'' @ [10]
         @ js ''NEXT i'' @ [10] @ js ''IF x''))))
     = []"
proof -
  define l1 where "l1 = js ''FOR i '' @ [arrow] @ js '' 1 TO 2''"
  define l2 where "l2 = js ''NEXT i''"
  define l4 where "l4 = js ''IF x''"
  define code where "code = js ''FOR i '' @ [arrow] @ js '' 1 TO 2'' @ [10] @ js ''NEXT i'' @ [10]
         @ js ''NEXT i'' @ [10] @ js ''IF x''"
  define lines where "lines = [l1, l2, l2, l4]"
  have l: "splitOn 10 code = lines"
    by (simp add: code_def lines_def l1_def l2_def l4_def splitOn_def js_def arrow_def)
  have sk: "\<not> isSkipped l1" "\<not> isSkipped l2" "\<not> isSkipped l4"
    by (simp_all add: l1_def l2_def l4_def isSkipped_def trim_def js_def isSpace_def arrow_def)
  have fw: "firstWord l1 = js ''FOR''" "firstWord l2 = js ''NEXT''" "firstWord l4 = js ''IF''"
    by (simp_all add: l1_def l2_def l4_def firstWord_def splitSpaces_def trim_def js_def isSpace_def
        arrow_def)
  have kw: "isUpperWord (js ''FOR'')" "map_of BLOCK_KEYWORDS (js ''FOR'') \<noteq> None"
    "isUpperWord (js ''IF'')" "map_of BLOCK_KEYWORDS (js ''IF'') \<noteq> None"
    "isCloser (js ''NEXT'')" "map_of BLOCK_KEYWORDS (js ''NEXT'') = None"
    by (simp_all add: isUpperWord_def isUpper_def BLOCK_KEYWORDS_def isCloser_def js_def)
  have s0: "blockStack (stateBefore lines 0) = []"
    by (simp add: stateBefore_0 initScan_def)
  have s1: "blockStack (stateBefore lines (Suc 0)) = [(js ''FOR'', 1)]"
    using stateBefore_blockStack [of 0 lines] by (simp add: lines_def sk fw kw s0 [unfolded lines_def])
  have s2: "blockStack (stateBefore lines (Suc (Suc 0))) = []"
    using stateBefore_blockStack [of "Suc 0" lines]
    by (simp add: lines_def sk fw kw s1 [unfolded lines_def])
  have s3: "blockStack (stateBefore lines (Suc (Suc (Suc 0)))) = []"
    using stateBefore_blockStack [of "Suc (Suc 0)" lines]
    by (simp add: lines_def sk fw kw s2 [unfolded lines_def])
  have s4: "blockStack (stateBefore lines (Suc (Suc (Suc (Suc 0))))) = [(js ''IF'', 4)]"
    using stateBefore_blockStack [of "Suc (Suc (Suc 0))" lines]
    by (simp add: lines_def sk fw kw s3 [unfolded lines_def])
  have final: "blockStack (linePass lines) = [(js ''IF'', 4)]"
    using s4 by (simp add: linePass_stateBefore lines_def)
  note disc = block_stack_discipline [of code, unfolded l]
  have a: "2 < length lines \<and> \<not> isSkipped (lines ! 2) \<and> isCloser (firstWord (lines ! 2))
           \<and> blockStack (stateBefore lines 2) = []"
    using s2 by (simp add: lines_def sk fw kw numeral_2_eq_2)
  have c: "1 < length lines \<and> \<not> isSkipped (lines ! 1) \<and> blockStack (stateBefore lines 1) \<noteq> []
           \<and> (fst (last (blockStack (stateBefore lines 1))) = js ''FOR''
                \<and> firstWord (lines ! 1) = js ''NEXT''
              \<or> fst (last (blockStack (stateBefore lines 1))) = js ''REPEAT''
                \<and> firstWord (lines ! 1) = js ''UNTIL'')"
    using s1 by (simp add: lines_def sk fw)
  from disc a have "filter (\<lambda>e. line e = 2 + 1) (filter (isFam (js ''Unexpec'')) (errors (checkSyntax code)))
      = [unexpectedCloser (2 + 1) (firstWord (lines ! 2))]"
    by blast
  then have r1: "filter (\<lambda>e. line e = 3) (filter (isFam (js ''Unexpec'')) (errors (checkSyntax code)))
      = [unexpectedCloser 3 (js ''NEXT'')]"
    by (simp add: lines_def fw)
  from disc final have r2: "filter (isFam (js ''Unmatch'')) (errors (checkSyntax code))
      = [unmatched (js ''IF'', 4)]"
    by simp
  from disc c have "filter (\<lambda>e. line e = 1 + 1) (filter (isFam (js ''Expecte'')) (errors (checkSyntax code))) = []"
    by blast
  then have r3: "filter (\<lambda>e. line e = 2) (filter (isFam (js ''Expecte'')) (errors (checkSyntax code))) = []"
    by (simp add: numeral_2_eq_2)
  from r1 r2 r3 show ?thesis unfolding code_def by blast
qed



text \<open>
  C5. The three-line example (a declaration, an assignment with the assignment glyph and
  an output) is valid and has no diagnostic at all.
\<close>

theorem three_line_example:
  "checkSyntax (js ''DECLARE x: INTEGER'' @ [10] @ js ''x '' @ [arrow] @ js '' 5'' @ [10] @ js ''OUTPUT x'')
   = \<lparr>isValid = True, errors = []\<rparr>"
  by (rule example_valid)

theorem three_line_example_witness:
  "isValid (checkSyntax (js ''DECLARE x: INTEGER'' @ [10] @ js ''x '' @ [arrow] @ js '' 5'' @ [10]
      @ js ''OUTPUT x''))
   \<and> length (errors (checkSyntax (js ''DECLARE x: INTEGER'' @ [10] @ js ''x '' @ [arrow] @ js '' 5'' @ [10]
      @ js ''OUTPUT x''))) = 0"
  by (simp only: three_line_example) simp






text \<open>
  C8. As stated for the next non-blank line, the property fails: the sweep finds the first
  line that starts with NEXT, but warns only when that line is the one immediately after
  the FOR line, so a blank line between FOR and NEXT suppresses the warning
  (the counterexample follows). What holds: a line whose trimmed text starts
  with \<^verbatim>\<open>FOR \<close> and contains \<^verbatim>\<open> TO \<close> has the empty-loop warning in the result if and
  only if the line immediately after it, trimmed, starts with \<^verbatim>\<open>NEXT \<close> (with the space).
\<close>

theorem empty_loop_warning:
  assumes "i < length (splitOn 10 code)"
    and "startsWith (trim (splitOn 10 code ! i)) (js ''FOR '')"
    and "includesStr (trim (splitOn 10 code ! i)) (js '' TO '')"
  shows "emptyLoop (i + 1) \<in> set (errors (checkSyntax code))
         \<longleftrightarrow> Suc i < length (splitOn 10 code)
             \<and> startsWith (trim (splitOn 10 code ! Suc i)) (js ''NEXT '')"
  using assms by (rule empty_loop_general)

theorem empty_loop_warning_witness:
  "emptyLoop 1 \<in> set (errors (checkSyntax (js ''FOR i '' @ [arrow] @ js '' 1 TO 3'' @ [10] @ js ''NEXT i'')))"
proof -
  define l1 where "l1 = js ''FOR i '' @ [arrow] @ js '' 1 TO 3''"
  define l2 where "l2 = js ''NEXT i''"
  define code where "code = js ''FOR i '' @ [arrow] @ js '' 1 TO 3'' @ [10] @ js ''NEXT i''"
  have l: "splitOn 10 code = [l1, l2]"
    by (simp add: code_def l1_def l2_def splitOn_def js_def arrow_def)
  have f: "startsWith (trim l1) (js ''FOR '')" "includesStr (trim l1) (js '' TO '')"
    by (simp_all add: l1_def trim_def js_def isSpace_def arrow_def)
  have n: "startsWith (trim l2) (js ''NEXT '')"
    by (simp add: l2_def trim_def js_def isSpace_def)
  have h: "0 < length (splitOn 10 code)" "startsWith (trim (splitOn 10 code ! 0)) (js ''FOR '')"
    "includesStr (trim (splitOn 10 code ! 0)) (js '' TO '')"
    using f by (simp_all add: l)
  have "Suc 0 < length (splitOn 10 code) \<and> startsWith (trim (splitOn 10 code ! Suc 0)) (js ''NEXT '')"
    using n by (simp add: l)
  with empty_loop_warning [OF h]
  have "emptyLoop 1 \<in> set (errors (checkSyntax code))" by simp
  then show ?thesis unfolding code_def .
qed

text \<open>
  The input of the counterexample is a FOR line, an empty line and \<^verbatim>\<open>NEXT i\<close>: the next
  non-blank line after the FOR line is its NEXT, and the result has no diagnostic.
\<close>

theorem empty_loop_counterexample:
  "startsWith (trim (splitOn 10 (js ''FOR i '' @ [arrow] @ js '' 1 TO 3'' @ [10, 10] @ js ''NEXT i'') ! 0))
     (js ''FOR '')
   \<and> includesStr (trim (splitOn 10 (js ''FOR i '' @ [arrow] @ js '' 1 TO 3'' @ [10, 10] @ js ''NEXT i'') ! 0))
     (js '' TO '')
   \<and> trim (splitOn 10 (js ''FOR i '' @ [arrow] @ js '' 1 TO 3'' @ [10, 10] @ js ''NEXT i'') ! 1) = []
   \<and> trim (splitOn 10 (js ''FOR i '' @ [arrow] @ js '' 1 TO 3'' @ [10, 10] @ js ''NEXT i'') ! 2) = js ''NEXT i''
   \<and> errors (checkSyntax (js ''FOR i '' @ [arrow] @ js '' 1 TO 3'' @ [10, 10] @ js ''NEXT i'')) = []"
proof -
  define code where "code = js ''FOR i '' @ [arrow] @ js '' 1 TO 3'' @ [10, 10] @ js ''NEXT i''"
  have l: "splitOn 10 code = [js ''FOR i '' @ [arrow] @ js '' 1 TO 3'', [], js ''NEXT i'']"
    by (simp add: code_def splitOn_def js_def arrow_def)
  have "startsWith (trim (splitOn 10 code ! 0)) (js ''FOR '')"
    "includesStr (trim (splitOn 10 code ! 0)) (js '' TO '')"
    "trim (splitOn 10 code ! 1) = []"
    "trim (splitOn 10 code ! 2) = js ''NEXT i''"
    unfolding l by (simp_all add: trim_def js_def isSpace_def arrow_def)
  moreover have "errors (checkSyntax code) = []"
    unfolding code_def by (simp only: blank_body) simp
  ultimately show ?thesis unfolding code_def by simp
qed

text \<open>
  C9. No two diagnostics of the result have the same line and the same message, and
  deduplication changes nothing when it is run again: neither on the result nor on any
  list that it has produced.
\<close>

theorem checkSyntax_deduplicated:
  "distinct (map (\<lambda>e. (line e, message e)) (errors (checkSyntax code)))
   \<and> deduplicate (errors (checkSyntax code)) = errors (checkSyntax code)
   \<and> (\<forall>es. deduplicate (deduplicate es) = deduplicate es)"
proof (cases "hasActualCode (splitOn 10 code)")
  case True
  then show ?thesis
    by (simp add: checkSyntax_def Let_def deduplicate_distinct deduplicate_idem)
next
  case False
  then have "errors (checkSyntax code) = [noContent]"
    by (simp add: checkSyntax_def)
  then show ?thesis
    by (simp add: deduplicate_idem) (simp add: deduplicate_def)
qed

theorem checkSyntax_deduplicated_witness:
  "deduplicate (errors (checkSyntax [])) = errors (checkSyntax [])
   \<and> deduplicate (deduplicate [noContent, noContent]) = deduplicate [noContent, noContent]"
  using checkSyntax_deduplicated [of "[]"] by blast



end
